theory Spec2Isabelle
  imports Complex_Main "HOL-Library.Char_ord" "HOL-Library.List_Lexorder"
begin

section \<open>Strings: the fragment of Python's \<open>str\<close> the notebooks use\<close>

text \<open>
  A Python \<open>str\<close> is a sequence of code points. The model takes the code points
  \<open>0..255\<close>, one \<^typ>\<open>char\<close> each, so that \<open>length\<close> counts what Python's
  \<open>len\<close> counts. On this range \<open>str.isspace\<close> holds for the twelve code points
  below, and \<open>str.lower\<close> maps \<open>A..Z\<close> and the capital letters \<open>0xC0..0xDE\<close>
  (without the multiplication sign \<open>0xD7\<close>) to the code point 32 above, and leaves
  every other code point alone.
\<close>

definition isspace :: "char \<Rightarrow> bool" where
  "isspace c =
     (let n = (of_char c :: nat)
      in (9 \<le> n \<and> n \<le> 13) \<or> (28 \<le> n \<and> n \<le> 32) \<or> n = 133 \<or> n = 160)"

definition isupper :: "char \<Rightarrow> bool" where
  "isupper c =
     (let n = (of_char c :: nat)
      in (65 \<le> n \<and> n \<le> 90) \<or> (192 \<le> n \<and> n \<le> 222 \<and> n \<noteq> 215))"

definition lower_char :: "char \<Rightarrow> char" where
  "lower_char c = (if isupper c then char_of ((of_char c :: nat) + 32) else c)"

definition lower :: "string \<Rightarrow> string" where
  "lower s = map lower_char s"

text \<open>
  \<open>str.split()\<close> without a separator: skip a run of whitespace, stop at the end of the
  string, otherwise cut the run of non-whitespace characters that follows and go on
  behind it. Empty fragments never appear in the result.
\<close>

function split :: "string \<Rightarrow> string list" where
  "split s =
     (let r = dropWhile isspace s
      in if r = [] then []
         else takeWhile (\<lambda>c. \<not> isspace c) r # split (dropWhile (\<lambda>c. \<not> isspace c) r))"
  by pat_completeness auto
termination
proof (relation "measure length")
  show "wf (measure length)" by simp
next
  fix s r :: string
  assume r: "r = dropWhile isspace s" and ne: "r \<noteq> []"
  from r ne have "\<not> isspace (hd r)"
    using hd_dropWhile by metis
  with ne have "dropWhile (\<lambda>c. \<not> isspace c) r = dropWhile (\<lambda>c. \<not> isspace c) (tl r)"
    by (cases r) simp_all
  moreover have "length (dropWhile (\<lambda>c. \<not> isspace c) (tl r)) \<le> length (tl r)"
    by (rule length_dropWhile_le)
  ultimately have "length (dropWhile (\<lambda>c. \<not> isspace c) r) \<le> length (tl r)"
    by simp
  also from ne have "\<dots> < length r" by (cases r) simp_all
  also from r have "\<dots> \<le> length s" by (simp add: length_dropWhile_le)
  finally show "(dropWhile (\<lambda>c. \<not> isspace c) r, s) \<in> measure length" by simp
qed

declare split.simps [simp del]

section \<open>Notebook 1: tokenizer and vocabulary\<close>

text \<open>
  \<^verbatim>\<open>tokenized_sentences = [sentence.lower().split() for sentence in sentences]\<close>
\<close>

definition tokenized_sentences :: "string list \<Rightarrow> string list list" where
  "tokenized_sentences sentences = map (\<lambda>sentence. split (lower sentence)) sentences"

text \<open>
  \<^verbatim>\<open>vocabulary = sorted(set(word for sentence in tokenized_sentences for word in sentence))\<close>
  Python compares strings lexicographically by code point, a proper prefix first; this
  is the order of \<^typ>\<open>char list\<close> here. The set forgets order and duplicates, and
  \<open>sorted\<close> lists its elements in ascending order.
\<close>

definition vocabulary :: "string list list \<Rightarrow> string list" where
  "vocabulary tokenized = sorted_list_of_set (set (concat tokenized))"

text \<open>The corpus of the notebook, and the two-sentence corpus of the end-to-end scenario.\<close>

definition sentences :: "string list" where
  "sentences = [''I love natural language processing'',
                ''Deep learning is a key technology for AI'',
                ''Word embeddings capture semantic meaning'',
                ''OpenAI embeddings are state-of-the-art'',
                ''Machine learning is evolving rapidly'']"

definition scenario_corpus :: "string list" where
  "scenario_corpus = [''I love natural language processing'',
                      ''Deep learning is a key technology for AI'']"

text \<open>
  What "the whitespace-split words of a string" means, stated without reference to
  the scanning order of \<^const>\<open>split\<close>: the string is a run of whitespace, or it is a
  run of whitespace, a nonempty word free of whitespace that ends at the end of the
  string or before a whitespace character, and a rest that is split in turn.
\<close>

inductive words_of :: "string \<Rightarrow> string list \<Rightarrow> bool" where
  no_word: "\<forall>c\<in>set s. isspace c \<Longrightarrow> words_of s []"
| a_word: "\<forall>c\<in>set pre. isspace c \<Longrightarrow> w \<noteq> [] \<Longrightarrow> \<forall>c\<in>set w. \<not> isspace c \<Longrightarrow>
     rest = [] \<or> isspace (hd rest) \<Longrightarrow> words_of rest ws \<Longrightarrow>
     words_of (pre @ w @ rest) (w # ws)"

section \<open>Strings beyond code point 255\<close>

text \<open>
  The same tokenizer over a wider alphabet: the code points \<open>0..255\<close> and \<open>U+03D2\<close>,
  the Greek upsilon with hook symbol. Python classifies \<open>U+03D2\<close> as an uppercase
  letter, \<open>str.lower\<close> leaves it as it is (it has no lowercase form), and it is not
  whitespace. On this alphabet \<open>str.lower\<close> still works code point by code point.
\<close>

datatype codepoint = Latin1 char | Upsilon_Hook

definition wide_isspace :: "codepoint \<Rightarrow> bool" where
  "wide_isspace c = (case c of Latin1 b \<Rightarrow> isspace b | Upsilon_Hook \<Rightarrow> False)"

definition wide_isupper :: "codepoint \<Rightarrow> bool" where
  "wide_isupper c = (case c of Latin1 b \<Rightarrow> isupper b | Upsilon_Hook \<Rightarrow> True)"

definition wide_lower_char :: "codepoint \<Rightarrow> codepoint" where
  "wide_lower_char c = (case c of Latin1 b \<Rightarrow> Latin1 (lower_char b) | Upsilon_Hook \<Rightarrow> Upsilon_Hook)"

definition wide_lower :: "codepoint list \<Rightarrow> codepoint list" where
  "wide_lower s = map wide_lower_char s"

function wide_split :: "codepoint list \<Rightarrow> codepoint list list" where
  "wide_split s =
     (let r = dropWhile wide_isspace s
      in if r = [] then []
         else takeWhile (\<lambda>c. \<not> wide_isspace c) r
              # wide_split (dropWhile (\<lambda>c. \<not> wide_isspace c) r))"
  by pat_completeness auto
termination
proof (relation "measure length")
  show "wf (measure length)" by simp
next
  fix s r :: "codepoint list"
  assume r: "r = dropWhile wide_isspace s" and ne: "r \<noteq> []"
  from r ne have "\<not> wide_isspace (hd r)"
    using hd_dropWhile by metis
  with ne have "dropWhile (\<lambda>c. \<not> wide_isspace c) r = dropWhile (\<lambda>c. \<not> wide_isspace c) (tl r)"
    by (cases r) simp_all
  moreover have "length (dropWhile (\<lambda>c. \<not> wide_isspace c) (tl r)) \<le> length (tl r)"
    by (rule length_dropWhile_le)
  ultimately have "length (dropWhile (\<lambda>c. \<not> wide_isspace c) r) \<le> length (tl r)"
    by simp
  also from ne have "\<dots> < length r" by (cases r) simp_all
  also from r have "\<dots> \<le> length s" by (simp add: length_dropWhile_le)
  finally show "(dropWhile (\<lambda>c. \<not> wide_isspace c) r, s) \<in> measure length" by simp
qed

declare wide_split.simps [simp del]

definition wide_tokenized_sentences :: "codepoint list list \<Rightarrow> codepoint list list list" where
  "wide_tokenized_sentences corpus = map (\<lambda>sentence. wide_split (wide_lower sentence)) corpus"

section \<open>Errors and dictionary and list access\<close>

text \<open>
  The notebooks define no exception class and contain no \<open>try\<close>. What can be raised
  is \<open>KeyError\<close> by a dictionary lookup, \<open>IndexError\<close> by a list index, and
  whatever an external library raises, kept by the name of its class.
\<close>

datatype error = KeyError string | IndexError | Raised string

definition getitem :: "(string \<rightharpoonup> 'a) \<Rightarrow> string \<Rightarrow> error + 'a" where
  "getitem m k = (case m k of None \<Rightarrow> Inl (KeyError k) | Some v \<Rightarrow> Inr v)"

definition index :: "'a list \<Rightarrow> nat \<Rightarrow> error + 'a" where
  "index xs i = (if i < length xs then Inr (xs ! i) else Inl IndexError)"

text \<open>
  An import names a module that the interpreter may fail to load; \<open>None\<close> is success.
  Imports run in order and the first failure ends them.
\<close>

record python =
  import_module :: "string \<Rightarrow> error option"

fun import_all :: "'a python_scheme \<Rightarrow> string list \<Rightarrow> error + unit" where
  "import_all py [] = Inr ()"
| "import_all py (m # ms) =
     (case import_module py m of Some e \<Rightarrow> Inl e | None \<Rightarrow> import_all py ms)"

section \<open>Notebook 1: one-hot encoding\<close>

text \<open>
  \<open>np.eye(n)\<close> is the \<open>n \<times> n\<close> identity matrix of floats \<open>0.0\<close> and \<open>1.0\<close>.
  Sums and products of these two values are exact in floating point as long as the
  result is \<open>0\<close> or \<open>1\<close>, so the entries are taken as reals.
\<close>

definition eye :: "nat \<Rightarrow> real list list" where
  "eye n = map (\<lambda>i. map (\<lambda>j. if i = j then 1 else 0) [0..<n]) [0..<n]"

text \<open>
  \<^verbatim>\<open>one_hot_vectors = {word: np.eye(len(vocabulary))[i] for i, word in enumerate(vocabulary)}\<close>
  The comprehension stores the entries in order, a later one replacing an earlier one
  with the same key. The row index \<open>i\<close> comes from \<open>enumerate\<close> and is below
  \<open>len(vocabulary)\<close>, so the row access cannot fail.
\<close>

definition one_hot_vectors :: "string list \<Rightarrow> (string \<rightharpoonup> real list)" where
  "one_hot_vectors vocab =
     fold (\<lambda>(i, word) m. m(word \<mapsto> eye (length vocab) ! i)) (enumerate 0 vocab) Map.empty"

text \<open>The dot product of two vectors of the same length.\<close>

definition dot :: "real list \<Rightarrow> real list \<Rightarrow> real" where
  "dot u v = sum_list (map2 (*) u v)"

section \<open>The pseudo-random generator of numpy\<close>

text \<open>
  \<open>np.random\<close> keeps one global generator. The model is the stream of floats the
  generator is going to produce and the number of floats already drawn. A draw of an
  array takes the next floats of the stream in row-major order.
\<close>

record rng_state =
  stream :: "nat \<Rightarrow> real"
  pos :: nat

text \<open>\<open>np.random.rand(n)\<close>\<close>

definition rand :: "nat \<Rightarrow> rng_state \<Rightarrow> real list \<times> rng_state" where
  "rand n g = (map (\<lambda>j. stream g (pos g + j)) [0..<n], g\<lparr>pos := pos g + n\<rparr>)"

section \<open>Notebook 1: Word2Vec and the GloVe placeholder\<close>

text \<open>
  \<^verbatim>\<open>word2vec_vectors = {word: word2vec_model.wv[word] for word in vocabulary}\<close>
  The trained model is seen through its lookup \<open>wv\<close>, which raises \<open>KeyError\<close> for a
  word the model does not hold.
\<close>

fun word2vec_loop ::
  "(string \<rightharpoonup> real list) \<Rightarrow> string list \<Rightarrow> (string \<rightharpoonup> real list) \<Rightarrow> error + (string \<rightharpoonup> real list)"
where
  "word2vec_loop wv [] m = Inr m"
| "word2vec_loop wv (word # rest) m =
     (case getitem wv word of
        Inl e \<Rightarrow> Inl e
      | Inr v \<Rightarrow> word2vec_loop wv rest (m(word \<mapsto> v)))"

definition word2vec_vectors ::
  "(string \<rightharpoonup> real list) \<Rightarrow> string list \<Rightarrow> error + (string \<rightharpoonup> real list)" where
  "word2vec_vectors wv vocab = word2vec_loop wv vocab Map.empty"

text \<open>
  \<^verbatim>\<open>glove_vectors = {word: np.random.rand(10) for word in vocabulary}\<close>
  Each word draws its ten floats from the global generator, in vocabulary order.
\<close>

fun glove_loop ::
  "string list \<Rightarrow> (string \<rightharpoonup> real list) \<Rightarrow> rng_state \<Rightarrow> (string \<rightharpoonup> real list) \<times> rng_state"
where
  "glove_loop [] m g = (m, g)"
| "glove_loop (word # rest) m g =
     (case rand 10 g of (v, g') \<Rightarrow> glove_loop rest (m(word \<mapsto> v)) g')"

definition glove_vectors ::
  "string list \<Rightarrow> rng_state \<Rightarrow> (string \<rightharpoonup> real list) \<times> rng_state" where
  "glove_vectors vocab g = glove_loop vocab Map.empty g"

section \<open>Running cells: printed lines and the first exception\<close>

datatype line =
    Vocabulary "string list"
  | OneHot "real list"
  | Word2VecExample "real list"
  | GloVe "real list"
  | BertShape "nat list"
  | OpenAI "real list"
  | Indices "int list list"
  | Distances "real list list"

text \<open>
  A computation prints lines and then either raised an exception or returned a value.
  There is no handler anywhere, so an exception ends the run: what was printed before
  stays, nothing after it is executed.
\<close>

type_synonym 'a run = "line list \<times> (error + 'a)"

definition print :: "line \<Rightarrow> unit run" where
  "print l = ([l], Inr ())"

definition call :: "error + 'a \<Rightarrow> 'a run" where
  "call r = ([], r)"

definition andthen :: "'a run \<Rightarrow> ('a \<Rightarrow> 'b run) \<Rightarrow> 'b run" where
  "andthen c f =
     (case c of
        (out, Inl e) \<Rightarrow> (out, Inl e)
      | (out, Inr x) \<Rightarrow> (case f x of (out', r) \<Rightarrow> (out @ out', r)))"

section \<open>Notebook 1: the cells\<close>

text \<open>
  The external libraries and services are parameters: importing a module, training
  Word2Vec (keyword arguments \<open>sentences\<close>, \<open>vector_size\<close>,
  \<open>window\<close>, \<open>min_count\<close>, \<open>workers\<close>, \<open>sg\<close>; the result is the lookup \<open>wv\<close>),
  building the feature-extraction pipeline (the result maps a sentence to one matrix
  of token vectors per input), the process environment, and the Azure OpenAI client
  (the result is \<open>embeddings.create\<close> as a function of \<open>input\<close> and \<open>model\<close>, giving
  the embeddings of \<open>response.data\<close>).
\<close>

record externals = python +
  Word2Vec :: "string list list \<Rightarrow> nat \<Rightarrow> nat \<Rightarrow> nat \<Rightarrow> nat \<Rightarrow> nat \<Rightarrow> error + (string \<rightharpoonup> real list)"
  pipeline :: "string \<Rightarrow> string \<Rightarrow> string \<Rightarrow> error + (string \<Rightarrow> error + real list list list)"
  getenv :: "string \<Rightarrow> string option"
  AzureOpenAI ::
    "string option \<Rightarrow> string \<Rightarrow> string option \<Rightarrow> error + (string \<Rightarrow> string \<Rightarrow> error + real list list)"

text \<open>The first code cell: the imports, then the corpus and its tokens.\<close>

definition cell_setup :: "externals \<Rightarrow> string list \<Rightarrow> string list list run" where
  "cell_setup ext corpus =
     andthen (call (import_all ext [''numpy'', ''matplotlib.pyplot'', ''sklearn.decomposition'',
                                    ''sklearn.manifold'', ''gensim.models'', ''transformers'']))
       (\<lambda>_. call (Inr (tokenized_sentences corpus)))"

definition cell_one_hot :: "string list list \<Rightarrow> string list run" where
  "cell_one_hot tokenized =
     (let vocab = vocabulary tokenized;
          table = one_hot_vectors vocab
      in andthen (print (Vocabulary vocab))
           (\<lambda>_. andthen (call (getitem table ''learning''))
           (\<lambda>v. andthen (print (OneHot v))
           (\<lambda>_. call (Inr vocab)))))"

text \<open>
  \<^verbatim>\<open>word2vec_model = Word2Vec(sentences=tokenized_sentences, vector_size=10, window=2,
                            min_count=1, workers=1, sg=1)
  word2vec_vectors = {word: word2vec_model.wv[word] for word in vocabulary}\<close>
\<close>

definition word2vec_table ::
  "externals \<Rightarrow> string list list \<Rightarrow> string list \<Rightarrow> error + (string \<rightharpoonup> real list)" where
  "word2vec_table ext tokenized vocab =
     (case Word2Vec ext tokenized 10 2 1 1 1 of
        Inl e \<Rightarrow> Inl e
      | Inr wv \<Rightarrow> word2vec_vectors wv vocab)"

definition cell_word2vec :: "externals \<Rightarrow> string list list \<Rightarrow> string list \<Rightarrow> unit run" where
  "cell_word2vec ext tokenized vocab =
     andthen (call (word2vec_table ext tokenized vocab))
       (\<lambda>table. andthen (call (getitem table ''learning''))
       (\<lambda>v. print (Word2VecExample v)))"

definition cell_glove :: "string list \<Rightarrow> rng_state \<Rightarrow> rng_state run" where
  "cell_glove vocab g =
     (case glove_vectors vocab g of (table, g') \<Rightarrow>
        andthen (call (getitem table ''learning''))
          (\<lambda>v. andthen (print (GloVe v))
          (\<lambda>_. call (Inr g'))))"

definition cell_bert :: "externals \<Rightarrow> unit run" where
  "cell_bert ext =
     andthen (call (pipeline ext ''feature-extraction'' ''bert-base-uncased'' ''bert-base-uncased''))
       (\<lambda>bert_pipeline. andthen (call (bert_pipeline ''Deep learning is a key technology for AI''))
       (\<lambda>batch. andthen (call (index batch 0))
       (\<lambda>bert_embedding. andthen (call (index bert_embedding 1))
       (\<lambda>v. print (BertShape [length v])))))"

text \<open>The cell of the two \<open>dotenv\<close> magics needs the extension to load.\<close>

definition cell_dotenv :: "externals \<Rightarrow> unit run" where
  "cell_dotenv ext = call (import_all ext [''dotenv''])"

text \<open>
  The credentials are read with \<open>os.getenv\<close>, which gives \<open>None\<close> for a variable that
  is not set, and are handed to the client constructor as they are.
\<close>

definition cell_openai :: "externals \<Rightarrow> unit run" where
  "cell_openai ext =
     andthen (call (import_all ext [''os'', ''openai'']))
       (\<lambda>_. andthen (call (AzureOpenAI ext (getenv ext ''AZURE_OPENAI_API_KEY'') ''2024-02-01''
                              (getenv ext ''AZURE_OPENAI_ENDPOINT'')))
       (\<lambda>create. andthen (call (create ''Deep learning is a key technology for AI''
                                   ''demo-cosmos-rag-emb''))
       (\<lambda>data. andthen (call (index data 0))
       (\<lambda>openai_embedding. print (OpenAI openai_embedding)))))"

text \<open>The cells from top to bottom, for a corpus and a state of the global generator.\<close>

definition run_all :: "externals \<Rightarrow> rng_state \<Rightarrow> string list \<Rightarrow> unit run" where
  "run_all ext g corpus =
     andthen (cell_setup ext corpus)
       (\<lambda>tokenized. andthen (cell_one_hot tokenized)
       (\<lambda>vocab. andthen (cell_word2vec ext tokenized vocab)
       (\<lambda>_. andthen (cell_glove vocab g)
       (\<lambda>_. andthen (cell_bert ext)
       (\<lambda>_. andthen (cell_dotenv ext)
       (\<lambda>_. cell_openai ext))))))"

text \<open>
  A run that stops at the first failure, said on its own: of a sequence of steps, each
  with the lines it printed and the error it raised if any, the lines up to and with
  the first failing step are printed, and that step's error is the result.
\<close>

definition status :: "'a run \<Rightarrow> line list \<times> error option" where
  "status c = (fst c, case snd c of Inl e \<Rightarrow> Some e | Inr x \<Rightarrow> None)"

fun first_failure :: "(line list \<times> error option) list \<Rightarrow> line list \<times> error option" where
  "first_failure [] = ([], None)"
| "first_failure ((out, Some e) # rest) = (out, Some e)"
| "first_failure ((out, None) # rest) =
     (case first_failure rest of (out', r) \<Rightarrow> (out @ out', r))"

text \<open>
  What gensim documents of \<open>Word2Vec\<close>, for any arguments: a model that training
  returns holds, for every word that occurs in the sentences at least \<open>min_count\<close>
  times, a vector of length \<open>vector_size\<close>.
\<close>

definition gensim_contract :: "externals \<Rightarrow> bool" where
  "gensim_contract ext \<longleftrightarrow>
     (\<forall>ss vector_size window min_count workers sg wv.
        Word2Vec ext ss vector_size window min_count workers sg = Inr wv \<longrightarrow>
        (\<forall>w\<in>set (concat ss). min_count \<le> count_list (concat ss) w \<longrightarrow>
           (\<exists>v. wv w = Some v \<and> length v = vector_size)))"

section \<open>Notebook 2: the HNSW example\<close>

text \<open>
  The parameters of numpy are the stream the global generator produces after
  \<open>np.random.seed(s)\<close>, the allocation of an array of \<open>n\<close> elements (\<open>None\<close> when
  it succeeds) and the rounding of \<open>astype('float32')\<close>. Those of faiss are the
  three calls on an index of some type \<open>'i\<close>: the constructor with the dimension and
  the number of neighbours, \<open>add\<close>, and \<open>search\<close> returning distances and indices.
\<close>

record numpy = python +
  seed_stream :: "nat \<Rightarrow> nat \<Rightarrow> real"
  allocate :: "nat \<Rightarrow> error option"
  float32 :: "real \<Rightarrow> real"

record 'i faiss = numpy +
  IndexHNSWFlat :: "nat \<Rightarrow> nat \<Rightarrow> error + 'i"
  index_add :: "'i \<Rightarrow> real list list \<Rightarrow> error + 'i"
  index_search :: "'i \<Rightarrow> real list list \<Rightarrow> nat \<Rightarrow> error + (real list list \<times> int list list)"

text \<open>
  \<open>np.random.seed(s)\<close> replaces the state of the global generator; it raises
  \<open>ValueError\<close> for a seed that is not below \<open>2 ** 32\<close>.
\<close>

definition seed :: "'a numpy_scheme \<Rightarrow> nat \<Rightarrow> rng_state \<Rightarrow> error + rng_state" where
  "seed lib s g =
     (if s < 2 ^ 32 then Inr \<lparr>stream = seed_stream lib s, pos = 0\<rparr>
      else Inl (Raised ''ValueError''))"

text \<open>\<open>np.random.random((rows, cols))\<close> allocates the array and fills it in row-major order.\<close>

definition random ::
  "'a numpy_scheme \<Rightarrow> nat \<times> nat \<Rightarrow> rng_state \<Rightarrow> error + (real list list \<times> rng_state)" where
  "random lib shape g =
     (case shape of (rows, cols) \<Rightarrow>
        (case allocate lib (rows * cols) of
           Some e \<Rightarrow> Inl e
         | None \<Rightarrow>
             Inr (map (\<lambda>i. map (\<lambda>j. stream g (pos g + i * cols + j)) [0..<cols]) [0..<rows],
                  g\<lparr>pos := pos g + rows * cols\<rparr>)))"

text \<open>\<open>.astype('float32')\<close> allocates a second array of the same size.\<close>

definition astype_float32 :: "'a numpy_scheme \<Rightarrow> real list list \<Rightarrow> error + real list list" where
  "astype_float32 lib m =
     (case allocate lib (length (concat m)) of
        Some e \<Rightarrow> Inl e
      | None \<Rightarrow> Inr (map (map (float32 lib)) m))"

text \<open>
  \<^verbatim>\<open>np.random.seed(1234)
  database = np.random.random((nb, d)).astype('float32')
  queries = np.random.random((nq, d)).astype('float32')\<close>
  with the seed and the sizes as arguments; \<open>g\<close> is the state of the generator before.
\<close>

definition generate ::
  "'a numpy_scheme \<Rightarrow> rng_state \<Rightarrow> nat \<Rightarrow> nat \<Rightarrow> nat \<Rightarrow> nat
     \<Rightarrow> error + (real list list \<times> real list list)" where
  "generate lib g s d nb nq =
     (case seed lib s g of Inl e \<Rightarrow> Inl e | Inr g0 \<Rightarrow>
      case random lib (nb, d) g0 of Inl e \<Rightarrow> Inl e | Inr (m1, g1) \<Rightarrow>
      case astype_float32 lib m1 of Inl e \<Rightarrow> Inl e | Inr database \<Rightarrow>
      case random lib (nq, d) g1 of Inl e \<Rightarrow> Inl e | Inr (m2, g2) \<Rightarrow>
      case astype_float32 lib m2 of Inl e \<Rightarrow> Inl e | Inr queries \<Rightarrow>
        Inr (database, queries))"

text \<open>The cell: the two imports, the data, the index, the search and the two prints.\<close>

definition vector_search ::
  "'i faiss \<Rightarrow> rng_state \<Rightarrow> nat \<Rightarrow> nat \<Rightarrow> nat \<Rightarrow> nat \<Rightarrow> nat \<Rightarrow> unit run" where
  "vector_search lib g s d nb nq k =
     andthen (call (import_all lib [''numpy'', ''faiss'']))
       (\<lambda>_. andthen (call (generate lib g s d nb nq))
       (\<lambda>(database, queries). andthen (call (IndexHNSWFlat lib d 32))
       (\<lambda>idx. andthen (call (index_add lib idx database))
       (\<lambda>idx. andthen (call (index_search lib idx queries k))
       (\<lambda>(distances, indices). andthen (print (Indices indices))
       (\<lambda>_. print (Distances distances)))))))"


text \<open>The queries of a result of \<^const>\<open>generate\<close>.\<close>

definition queries_of ::
  "error + (real list list \<times> real list list) \<Rightarrow> error + real list list" where
  "queries_of r = (case r of Inl e \<Rightarrow> Inl e | Inr (database, queries) \<Rightarrow> Inr queries)"

section \<open>Concrete libraries for evaluating the model\<close>

text \<open>
  A generator state whose stream counts \<open>0, 1, 2, \<dots>\<close>. Externals in which every
  call returns normally: the Word2Vec model holds a zero vector of the requested size
  for every training word, the pipeline gives ten 768-vectors, the client gives one
  embedding. The same externals with a pipeline that cannot be loaded, and with an
  empty environment and a client constructor that raises when it gets no key.
\<close>

definition counting :: rng_state where
  "counting = \<lparr>stream = (\<lambda>i. real i), pos = 0\<rparr>"

definition all_fine :: externals where
  "all_fine =
     \<lparr>import_module = (\<lambda>m. None),
      Word2Vec = (\<lambda>ss vector_size window min_count workers sg.
         Inr (\<lambda>w. if w \<in> set (concat ss) then Some (replicate vector_size 0) else None)),
      pipeline = (\<lambda>task model tokenizer.
         Inr (\<lambda>s. Inr [replicate 10 (replicate 768 0)])),
      getenv = (\<lambda>name. Some ''secret''),
      AzureOpenAI = (\<lambda>api_key api_version azure_endpoint.
         Inr (\<lambda>input model. Inr [[1, 2, 3]]))\<rparr>"

definition bert_unavailable :: externals where
  "bert_unavailable =
     all_fine\<lparr>pipeline := (\<lambda>task model tokenizer. Inl (Raised ''OSError''))\<rparr>"

definition word2vec_fails :: externals where
  "word2vec_fails =
     all_fine\<lparr>Word2Vec := (\<lambda>ss vector_size window min_count workers sg.
                  Inl (Raised ''RuntimeError''))\<rparr>"

definition missing_credentials :: externals where
  "missing_credentials =
     all_fine\<lparr>getenv := (\<lambda>name. None),
               AzureOpenAI := (\<lambda>api_key api_version azure_endpoint.
                  if api_key = None then Inl (Raised ''OpenAIError'')
                  else Inr (\<lambda>input model. Inr [[1, 2, 3]]))\<rparr>"

text \<open>
  An exact search in place of faiss's graph search. The index is its dimension and
  the vectors added. \<open>add\<close> and \<open>search\<close> assert, as the Python wrapper of faiss
  does, that the rows have the dimension of the index, and \<open>search\<close> that \<open>k > 0\<close>.
  A result row holds the \<open>k\<close> nearest stored vectors by squared Euclidean distance,
  nearest first, and is filled up with the index \<open>-1\<close> and the largest float32
  (printed \<open>3.4028235e+38\<close>), which is all that a search of an empty index returns.
  The generator of this library gives \<open>1 / (s + i + 2)\<close> at position \<open>i\<close> after
  seed \<open>s\<close>; no allocation fails and \<open>float32\<close> rounds nothing.
\<close>

definition l2_sqr :: "real list \<Rightarrow> real list \<Rightarrow> real" where
  "l2_sqr q x = sum_list (map2 (\<lambda>a b. (a - b) ^ 2) q x)"

definition flt_max :: real where
  "flt_max = 340282346638528859811704183484516925440"

definition flat_search :: "real list list \<Rightarrow> real list \<Rightarrow> nat \<Rightarrow> (real \<times> int) list" where
  "flat_search xs q k =
     take k (sort_key fst (map (\<lambda>(i, x). (l2_sqr q x, int i)) (enumerate 0 xs))
             @ replicate k (flt_max, - 1))"

definition flat_faiss :: "(nat \<times> real list list) faiss" where
  "flat_faiss =
     \<lparr>import_module = (\<lambda>m. None),
      seed_stream = (\<lambda>s i. 1 / real (s + i + 2)),
      allocate = (\<lambda>n. None),
      float32 = (\<lambda>x. x),
      IndexHNSWFlat = (\<lambda>d m. Inr (d, [])),
      index_add = (\<lambda>idx xs.
         if list_all (\<lambda>x. length x = fst idx) xs then Inr (fst idx, snd idx @ xs)
         else Inl (Raised ''AssertionError'')),
      index_search = (\<lambda>idx qs k.
         if list_all (\<lambda>q. length q = fst idx) qs \<and> 0 < k
         then Inr (map (\<lambda>q. map fst (flat_search (snd idx) q k)) qs,
                   map (\<lambda>q. map snd (flat_search (snd idx) q k)) qs)
         else Inl (Raised ''AssertionError''))\<rparr>"

text \<open>
  Two values of numpy's generator after \<open>np.random.seed(1234)\<close>: the floats at
  positions 4656 and 6581 of the stream, as fractions of \<open>2 ** 53\<close>. Both lie in
  \<open>[1/2, 1)\<close>, where the float32 values are the multiples of \<open>2 ** -24\<close>, and
  \<open>astype('float32')\<close> rounds both to \<open>0.6391047\<close>. The other positions of this
  stream are not numpy's and are read by no statement below.
\<close>

definition numpy_1234 :: "(nat \<times> real list list) faiss" where
  "numpy_1234 =
     flat_faiss
       \<lparr>seed_stream := (\<lambda>s i. if i = 4656 then 5756543613440033 / 2 ^ 53
                               else if i = 6581 then 5756543462972382 / 2 ^ 53
                               else 0),
        float32 := (\<lambda>x. real_of_int (round (x * 2 ^ 24)) / 2 ^ 24)\<rparr>"

section \<open>Properties of the tokenizer\<close>

lemma split_all_space: "\<forall>c\<in>set s. isspace c \<Longrightarrow> split s = []"
  by (subst split.simps) simp

lemma dropWhile_space_run:
  assumes "\<forall>c\<in>set pre. isspace c" "w \<noteq> []" "\<forall>c\<in>set w. \<not> isspace c"
  shows "dropWhile isspace (pre @ w @ rest) = w @ rest"
proof -
  from assms(2,3) have "\<not> isspace (hd w)" by (cases w) simp_all
  with assms(2) have "dropWhile isspace (w @ rest) = w @ rest"
    by (cases w) simp_all
  with assms(1) show ?thesis by (simp add: dropWhile_append2)
qed

lemma takeWhile_word_run:
  assumes "\<forall>c\<in>set w. \<not> isspace c" "rest = [] \<or> isspace (hd rest)"
  shows "takeWhile (\<lambda>c. \<not> isspace c) (w @ rest) = w"
    and "dropWhile (\<lambda>c. \<not> isspace c) (w @ rest) = rest"
  using assms by (cases rest; simp add: takeWhile_append2 dropWhile_append2)+

lemma split_word:
  assumes "\<forall>c\<in>set pre. isspace c" "w \<noteq> []" "\<forall>c\<in>set w. \<not> isspace c"
    "rest = [] \<or> isspace (hd rest)"
  shows "split (pre @ w @ rest) = w # split rest"
proof -
  have d: "dropWhile isspace (pre @ w @ rest) = w @ rest"
    using assms(1-3) by (rule dropWhile_space_run)
  have t: "takeWhile (\<lambda>c. \<not> isspace c) (w @ rest) = w"
    and r: "dropWhile (\<lambda>c. \<not> isspace c) (w @ rest) = rest"
    using assms(3,4) by (rule takeWhile_word_run)+
  have "split (pre @ w @ rest) =
      (if w @ rest = [] then []
       else takeWhile (\<lambda>c. \<not> isspace c) (w @ rest)
            # split (dropWhile (\<lambda>c. \<not> isspace c) (w @ rest)))"
    by (subst split.simps) (simp only: d Let_def)
  also have "\<dots> = w # split rest"
    using assms(2) by (simp only: t r) simp
  finally show ?thesis .
qed

lemma words_of_unique: "words_of s ws \<Longrightarrow> split s = ws"
  by (induction rule: words_of.induct) (simp_all add: split_all_space split_word)

lemma words_of_split: "words_of s (split s)"
proof (induction s rule: split.induct)
  case (1 s)
  define pre where "pre = takeWhile isspace s"
  define r where "r = dropWhile isspace s"
  have s: "s = pre @ r" by (simp add: pre_def r_def)
  have pre: "\<forall>c\<in>set pre. isspace c"
    by (auto simp: pre_def dest: set_takeWhileD)
  show ?case
  proof (cases "r = []")
    case True
    with s pre have "\<forall>c\<in>set s. isspace c" by simp
    moreover from True have "split s = []"
      by (subst split.simps) (simp add: r_def)
    ultimately show ?thesis by (simp add: words_of.no_word)
  next
    case False
    define w where "w = takeWhile (\<lambda>c. \<not> isspace c) r"
    define rest where "rest = dropWhile (\<lambda>c. \<not> isspace c) r"
    have r: "r = w @ rest" by (simp add: w_def rest_def)
    from False have "\<not> isspace (hd r)"
      unfolding r_def using hd_dropWhile by metis
    with False have wne: "w \<noteq> []" by (cases r) (simp_all add: w_def)
    have w: "\<forall>c\<in>set w. \<not> isspace c"
      by (auto simp: w_def dest: set_takeWhileD)
    have rest: "rest = [] \<or> isspace (hd rest)"
      unfolding rest_def using hd_dropWhile by (metis (mono_tags, lifting))
    from False have IH: "words_of rest (split rest)"
      using "1.IH" [of r] by (simp add: r_def rest_def)
    have "split s = w # split rest"
      using False by (subst split.simps) (simp add: r_def w_def rest_def Let_def)
    moreover have "words_of (pre @ w @ rest) (w # split rest)"
      using pre wne w rest IH by (rule words_of.a_word)
    ultimately show ?thesis using s r by simp
  qed
qed

lemma words_of_concat: "words_of s ws \<Longrightarrow> concat ws = filter (\<lambda>c. \<not> isspace c) s"
proof (induction rule: words_of.induct)
  case (no_word s)
  then show ?case by (simp add: filter_empty_conv)
next
  case (a_word pre w rest ws)
  from a_word(1) have "filter (\<lambda>c. \<not> isspace c) pre = []" by (simp add: filter_empty_conv)
  moreover from a_word(3) have "filter (\<lambda>c. \<not> isspace c) w = w" by (simp add: filter_id_conv)
  ultimately show ?case using a_word.IH by simp
qed

lemma words_of_token: "words_of s ws \<Longrightarrow> w \<in> set ws \<Longrightarrow> w \<noteq> [] \<and> (\<forall>c\<in>set w. \<not> isspace c)"
  by (induction rule: words_of.induct) auto

lemma lower_char_not_upper: "\<not> isupper (lower_char c)"
  by (auto simp: isupper_def lower_char_def Let_def)

lemma lower_fix: "\<forall>c\<in>set w. \<not> isupper c \<Longrightarrow> lower w = w"
  by (induction w) (simp_all add: lower_def lower_char_def)

lemma split_token: "w \<in> set (split s) \<Longrightarrow> w \<noteq> [] \<and> (\<forall>c\<in>set w. \<not> isspace c)"
  using words_of_split words_of_token by blast

lemma split_chars: "concat (split s) = filter (\<lambda>c. \<not> isspace c) s"
  using words_of_split words_of_concat by blast

lemma lower_not_upper: "c \<in> set (lower s) \<Longrightarrow> \<not> isupper c"
  by (auto simp: lower_def lower_char_not_upper)

lemma token_of_lower:
  assumes "w \<in> set (split (lower s))"
  shows "w \<noteq> [] \<and> (\<forall>c\<in>set w. \<not> isspace c \<and> \<not> isupper c) \<and> lower w = w"
proof -
  from assms have "set w \<subseteq> set (concat (split (lower s)))" by auto
  also have "\<dots> \<subseteq> set (lower s)" by (simp add: split_chars)
  finally have "\<forall>c\<in>set w. \<not> isupper c" using lower_not_upper by blast
  with split_token [OF assms] show ?thesis by (simp add: lower_fix)
qed

lemma vocabulary_set: "set (vocabulary tokenized) = set (concat tokenized)"
  by (simp add: vocabulary_def)

lemma vocabulary_distinct: "distinct (vocabulary tokenized)"
  by (simp add: vocabulary_def)

lemma vocabulary_sorted: "sorted (vocabulary tokenized)"
  by (simp add: vocabulary_def)

lemma vocabulary_any_order:
  "set ys = set (concat tokenized) \<Longrightarrow> sort (remdups ys) = vocabulary tokenized"
  by (simp add: vocabulary_def sorted_list_of_set_sort_remdups [symmetric])


text \<open>
  Claim C2. For every ordered sequence of sentences, the tokenizer gives one token
  sequence per sentence, in order: the whitespace-split words of the lowercased
  sentence and nothing else (the words are determined by the sentence, and their
  characters are the non-whitespace characters of the lowercased sentence). The
  vocabulary is the set of the words of all token sequences, as a strictly ascending
  sequence, and it is the same in whatever order the words of the set are listed
  before sorting, so that a second run gives the same result.
\<close>

theorem tokenizer_contract:
  "let tokenized = tokenized_sentences corpus;
       vocab = vocabulary tokenized
   in length tokenized = length corpus
    \<and> (\<forall>i<length corpus.
          words_of (lower (corpus ! i)) (tokenized ! i)
        \<and> (\<forall>ws. words_of (lower (corpus ! i)) ws \<longrightarrow> ws = tokenized ! i)
        \<and> concat (tokenized ! i) = filter (\<lambda>c. \<not> isspace c) (lower (corpus ! i)))
    \<and> set vocab = (\<Union>ws\<in>set tokenized. set ws)
    \<and> sorted vocab \<and> distinct vocab
    \<and> (\<forall>ys. set ys = set (concat tokenized) \<longrightarrow> sort (remdups ys) = vocab)"
proof -
  define tokenized where "tokenized = tokenized_sentences corpus"
  have nth: "tokenized ! i = split (lower (corpus ! i))" if "i < length corpus" for i
    using that by (simp add: tokenized_def tokenized_sentences_def)
  have a: "length tokenized = length corpus"
    by (simp add: tokenized_def tokenized_sentences_def)
  have b: "\<forall>i<length corpus.
          words_of (lower (corpus ! i)) (tokenized ! i)
        \<and> (\<forall>ws. words_of (lower (corpus ! i)) ws \<longrightarrow> ws = tokenized ! i)
        \<and> concat (tokenized ! i) = filter (\<lambda>c. \<not> isspace c) (lower (corpus ! i))"
    using words_of_unique by (auto simp: nth words_of_split split_chars)
  have c: "set (vocabulary tokenized) = (\<Union>ws\<in>set tokenized. set ws)"
    by (simp add: vocabulary_set)
  have d: "\<forall>ys. set ys = set (concat tokenized) \<longrightarrow> sort (remdups ys) = vocabulary tokenized"
    using vocabulary_any_order by blast
  from a b c d show ?thesis
    unfolding Let_def tokenized_def [symmetric]
    by (simp only: vocabulary_sorted vocabulary_distinct simp_thms)
qed

theorem tokenizer_contract_witness:
  "tokenized_sentences [''b A'', ''a  c''] = [[''b'', ''a''], [''a'', ''c'']]
   \<and> (0::nat) < length [''b A'', ''a  c'']
   \<and> words_of (lower ''b A'') [''b'', ''a'']
   \<and> concat [''b'', ''a''] = filter (\<lambda>c. \<not> isspace c) (lower ''b A'')
   \<and> set [''c'', ''a'', ''b'', ''a''] = set (concat [[''b'', ''a''], [''a'', ''c'']])
   \<and> sort (remdups [''c'', ''a'', ''b'', ''a'']) = vocabulary [[''b'', ''a''], [''a'', ''c'']]
   \<and> vocabulary [[''b'', ''a''], [''a'', ''c'']] = [''a'', ''b'', ''c'']"
proof -
  have t: "tokenized_sentences [''b A'', ''a  c''] = [[''b'', ''a''], [''a'', ''c'']]"
    by code_simp
  have v: "vocabulary [[''b'', ''a''], [''a'', ''c'']] = [''a'', ''b'', ''c'']"
    by code_simp
  have s: "set [''c'', ''a'', ''b'', ''a''] = set (concat [[''b'', ''a''], [''a'', ''c'']])"
    by auto
  note c = tokenizer_contract [of "[''b A'', ''a  c'']", unfolded Let_def t]
  have len: "(0::nat) < length [''b A'', ''a  c'']" by simp
  from c [THEN conjunct2, THEN conjunct1, rule_format, OF len]
  have i0: "words_of (lower ''b A'') [''b'', ''a'']
      \<and> concat [''b'', ''a''] = filter (\<lambda>c. \<not> isspace c) (lower ''b A'')"
    by simp
  from c [THEN conjunct2, THEN conjunct2, THEN conjunct2, THEN conjunct2, THEN conjunct2,
      rule_format, OF s]
  have "sort (remdups [''c'', ''a'', ''b'', ''a'']) = vocabulary [[''b'', ''a''], [''a'', ''c'']]" .
  with t v s i0 len show ?thesis by (simp only: simp_thms)
qed


section \<open>Tokens over the wider alphabet\<close>

lemma wide_isspace_Latin1: "wide_isspace \<circ> Latin1 = isspace"
  by (rule ext) (simp add: wide_isspace_def)

lemma wide_not_isspace_Latin1: "(\<lambda>c. \<not> wide_isspace c) \<circ> Latin1 = (\<lambda>c. \<not> isspace c)"
  by (rule ext) (simp add: wide_isspace_def)

lemma wide_split_Latin1: "wide_split (map Latin1 s) = map (map Latin1) (split s)"
proof (induction s rule: split.induct)
  case (1 s)
  define r where "r = dropWhile isspace s"
  have d: "dropWhile wide_isspace (map Latin1 s) = map Latin1 r"
    by (simp add: r_def dropWhile_map wide_isspace_Latin1)
  show ?case
  proof (cases "r = []")
    case True
    then have "split s = []" by (subst split.simps) (simp add: r_def)
    moreover from True d have "wide_split (map Latin1 s) = []"
      by (subst wide_split.simps) simp
    ultimately show ?thesis by simp
  next
    case False
    have s: "split s = takeWhile (\<lambda>c. \<not> isspace c) r # split (dropWhile (\<lambda>c. \<not> isspace c) r)"
      using False by (subst split.simps) (simp add: r_def Let_def)
    have "wide_split (map Latin1 s) =
        takeWhile (\<lambda>c. \<not> wide_isspace c) (map Latin1 r)
        # wide_split (dropWhile (\<lambda>c. \<not> wide_isspace c) (map Latin1 r))"
      using False by (subst wide_split.simps) (simp add: d Let_def)
    also have "\<dots> = map Latin1 (takeWhile (\<lambda>c. \<not> isspace c) r)
        # wide_split (map Latin1 (dropWhile (\<lambda>c. \<not> isspace c) r))"
      by (simp add: takeWhile_map dropWhile_map wide_not_isspace_Latin1)
    also have "wide_split (map Latin1 (dropWhile (\<lambda>c. \<not> isspace c) r)) =
        map (map Latin1) (split (dropWhile (\<lambda>c. \<not> isspace c) r))"
      using "1.IH" [of r] False by (simp add: r_def)
    finally show ?thesis by (simp add: s)
  qed
qed

lemma wide_lower_Latin1: "wide_lower (map Latin1 s) = map Latin1 (lower s)"
  by (simp add: wide_lower_def lower_def wide_lower_char_def)

lemma wide_tokenized_Latin1:
  "wide_tokenized_sentences (map (map Latin1) corpus) =
     map (map (map Latin1)) (tokenized_sentences corpus)"
  by (simp add: wide_tokenized_sentences_def tokenized_sentences_def wide_lower_Latin1
      wide_split_Latin1)

lemma wide_split_token:
  "w \<in> set (wide_split s) \<Longrightarrow> w \<noteq> [] \<and> (\<forall>c\<in>set w. \<not> wide_isspace c) \<and> set w \<subseteq> set s"
proof (induction s arbitrary: w rule: wide_split.induct)
  case (1 s)
  define r where "r = dropWhile wide_isspace s"
  have ne: "r \<noteq> []"
  proof
    assume "r = []"
    then have "wide_split s = []" by (subst wide_split.simps) (simp add: r_def)
    with "1.prems" show False by simp
  qed
  have sp: "wide_split s = takeWhile (\<lambda>c. \<not> wide_isspace c) r
      # wide_split (dropWhile (\<lambda>c. \<not> wide_isspace c) r)"
    using ne by (subst wide_split.simps) (simp add: r_def Let_def)
  have rs: "set r \<subseteq> set s" unfolding r_def by (rule set_dropWhileD [THEN subsetI])
  from ne have h: "\<not> wide_isspace (hd r)" unfolding r_def using hd_dropWhile by metis
  from "1.prems" sp consider "w = takeWhile (\<lambda>c. \<not> wide_isspace c) r"
    | "w \<in> set (wide_split (dropWhile (\<lambda>c. \<not> wide_isspace c) r))" by auto
  then show ?case
  proof cases
    case 1
    from ne h have "w \<noteq> []" unfolding 1 by (cases r) simp_all
    moreover have "\<forall>c\<in>set w. \<not> wide_isspace c"
      unfolding 1 by (auto dest: set_takeWhileD)
    moreover have "set w \<subseteq> set s"
      unfolding 1 using rs by (auto dest: set_takeWhileD)
    ultimately show ?thesis by blast
  next
    case 2
    from "1.IH" [OF r_def ne 2]
    have "w \<noteq> []" "\<forall>c\<in>set w. \<not> wide_isspace c"
      "set w \<subseteq> set (dropWhile (\<lambda>c. \<not> wide_isspace c) r)" by blast+
    moreover have "set (dropWhile (\<lambda>c. \<not> wide_isspace c) r) \<subseteq> set s"
      using rs by (auto dest: set_dropWhileD)
    ultimately show ?thesis by blast
  qed
qed

lemma wide_lower_char_fixed: "wide_lower_char (wide_lower_char c) = wide_lower_char c"
proof (cases c)
  case (Latin1 b)
  have "lower_char (lower_char b) = lower_char b"
    using lower_char_not_upper [of b] by (simp add: lower_char_def [of "lower_char b"])
  with Latin1 show ?thesis by (simp add: wide_lower_char_def)
next
  case Upsilon_Hook
  then show ?thesis by (simp add: wide_lower_char_def)
qed

lemma wide_lower_upper:
  "wide_isupper (wide_lower_char c) \<Longrightarrow> wide_lower_char c = Upsilon_Hook"
  by (cases c) (simp_all add: wide_isupper_def wide_lower_char_def lower_char_not_upper)

lemma wide_token_of_lower:
  assumes "w \<in> set (wide_split (wide_lower s))"
  shows "w \<noteq> [] \<and> (\<forall>c\<in>set w. \<not> wide_isspace c) \<and> wide_lower w = w
       \<and> (\<forall>c\<in>set w. wide_isupper c \<longrightarrow> c = Upsilon_Hook)"
proof -
  note t = wide_split_token [OF assms]
  have fixed: "wide_lower_char c = c" if "c \<in> set w" for c
  proof -
    from that t obtain c' where "c = wide_lower_char c'" by (auto simp: wide_lower_def)
    then show ?thesis by (simp add: wide_lower_char_fixed)
  qed
  then have "wide_lower w = w" by (simp add: wide_lower_def map_idI)
  moreover have "\<forall>c\<in>set w. wide_isupper c \<longrightarrow> c = Upsilon_Hook"
    using fixed wide_lower_upper by metis
  ultimately show ?thesis using t by blast
qed

text \<open>
  Claim C9, as stated: no token has an uppercase character. The sentence made of
  \<open>U+03D2\<close>, a space and \<open>A\<close> gives the tokens \<open>U+03D2\<close> and \<open>a\<close>: the first is an
  uppercase character, which lowercasing leaves as it is.
\<close>

theorem uppercase_token:
  "wide_tokenized_sentences [[Upsilon_Hook, Latin1 CHR '' '', Latin1 CHR ''A'']] =
     [[[Upsilon_Hook], [Latin1 CHR ''a'']]]
   \<and> wide_isupper Upsilon_Hook"
  by code_simp

text \<open>
  Claim C9, amended. Every token, and so every vocabulary entry, is a nonempty string
  without whitespace, and lowercasing it again gives the same string. An uppercase
  character in a token is one that has no lowercase form (\<open>U+03D2\<close> in this alphabet);
  tokens within the code points \<open>0..255\<close> have no uppercase character at all. On
  sentences within \<open>0..255\<close> the tokenizer over the wider alphabet is the one above.
\<close>

theorem token_invariant:
  "(w \<in> set (concat (wide_tokenized_sentences wide_corpus)) \<longrightarrow>
      w \<noteq> [] \<and> (\<forall>c\<in>set w. \<not> wide_isspace c) \<and> wide_lower w = w
    \<and> (\<forall>c\<in>set w. wide_isupper c \<longrightarrow> c = Upsilon_Hook))
   \<and> (u \<in> set (concat (tokenized_sentences corpus)) \<or> u \<in> set (vocabulary (tokenized_sentences corpus))
      \<longrightarrow> u \<noteq> [] \<and> (\<forall>c\<in>set u. \<not> isspace c \<and> \<not> isupper c) \<and> lower u = u)
   \<and> wide_tokenized_sentences (map (map Latin1) corpus) =
       map (map (map Latin1)) (tokenized_sentences corpus)"
proof -
  have a: "w \<noteq> [] \<and> (\<forall>c\<in>set w. \<not> wide_isspace c) \<and> wide_lower w = w
    \<and> (\<forall>c\<in>set w. wide_isupper c \<longrightarrow> c = Upsilon_Hook)"
    if "w \<in> set (concat (wide_tokenized_sentences wide_corpus))"
  proof -
    from that obtain s where "w \<in> set (wide_split (wide_lower s))"
      by (auto simp: wide_tokenized_sentences_def)
    then show ?thesis by (rule wide_token_of_lower)
  qed
  have b: "u \<noteq> [] \<and> (\<forall>c\<in>set u. \<not> isspace c \<and> \<not> isupper c) \<and> lower u = u"
    if "u \<in> set (concat (tokenized_sentences corpus))
      \<or> u \<in> set (vocabulary (tokenized_sentences corpus))"
  proof -
    from that have "u \<in> set (concat (tokenized_sentences corpus))"
      by (simp add: vocabulary_set)
    then obtain s where "u \<in> set (split (lower s))"
      by (auto simp: tokenized_sentences_def)
    then show ?thesis by (rule token_of_lower)
  qed
  from a b wide_tokenized_Latin1 [of corpus] show ?thesis by blast
qed

theorem token_invariant_witness:
  "[Upsilon_Hook] \<in> set (concat (wide_tokenized_sentences
        [[Upsilon_Hook, Latin1 CHR '' '', Latin1 CHR ''A'']]))
   \<and> wide_lower [Upsilon_Hook] = [Upsilon_Hook]
   \<and> \<not> wide_isspace Upsilon_Hook
   \<and> ''a'' \<in> set (vocabulary (tokenized_sentences [''b A'']))
   \<and> ''a'' \<noteq> [] \<and> \<not> isspace CHR ''a'' \<and> \<not> isupper CHR ''a'' \<and> lower ''a'' = ''a''"
proof -
  note h = token_invariant [of "[Upsilon_Hook]"
      "[[Upsilon_Hook, Latin1 CHR '' '', Latin1 CHR ''A'']]" "''a''" "[''b A'']"]
  have t: "wide_tokenized_sentences [[Upsilon_Hook, Latin1 CHR '' '', Latin1 CHR ''A'']] =
     [[[Upsilon_Hook], [Latin1 CHR ''a'']]]"
    by code_simp
  then have m: "[Upsilon_Hook] \<in> set (concat (wide_tokenized_sentences
        [[Upsilon_Hook, Latin1 CHR '' '', Latin1 CHR ''A'']]))" by simp
  from h [THEN conjunct1, rule_format, OF m]
  have 1: "wide_lower [Upsilon_Hook] = [Upsilon_Hook] \<and> \<not> wide_isspace Upsilon_Hook" by simp
  have v: "vocabulary (tokenized_sentences [''b A'']) = [''a'', ''b'']"
    by code_simp
  then have m2: "''a'' \<in> set (vocabulary (tokenized_sentences [''b A'']))" by simp
  then have "''a'' \<in> set (concat (tokenized_sentences [''b A'']))
      \<or> ''a'' \<in> set (vocabulary (tokenized_sentences [''b A'']))" by simp
  from h [THEN conjunct2, THEN conjunct1, rule_format, OF this]
  have 2: "''a'' \<noteq> [] \<and> \<not> isspace CHR ''a'' \<and> \<not> isupper CHR ''a'' \<and> lower ''a'' = ''a''"
    by simp
  from m 1 m2 2 show ?thesis by simp
qed

section \<open>Properties of the one-hot table\<close>

lemma comprehension_other:
  "w \<notin> set xs \<Longrightarrow> fold (\<lambda>(i, word) m. m(word \<mapsto> f i)) (enumerate k xs) m0 w = m0 w"
  by (induction xs arbitrary: k m0) auto

lemma comprehension_nth:
  "distinct xs \<Longrightarrow> j < length xs \<Longrightarrow>
   fold (\<lambda>(i, word) m. m(word \<mapsto> f i)) (enumerate k xs) m0 (xs ! j) = Some (f (k + j))"
proof (induction xs arbitrary: k m0 j)
  case Nil
  then show ?case by simp
next
  case (Cons x xs)
  show ?case
  proof (cases j)
    case 0
    from Cons.prems have "x \<notin> set xs" by simp
    then have "fold (\<lambda>(i, word) m. m(word \<mapsto> f i)) (enumerate (Suc k) xs) (m0(x \<mapsto> f k)) x
        = (m0(x \<mapsto> f k)) x"
      by (rule comprehension_other)
    then show ?thesis unfolding 0 by (simp del: fun_upd_apply) simp
  next
    case (Suc j')
    with Cons.prems Cons.IH [of j' "Suc k"] show ?thesis by simp
  qed
qed

lemma one_hot_nth:
  "distinct vocab \<Longrightarrow> i < length vocab \<Longrightarrow>
   one_hot_vectors vocab (vocab ! i) = Some (eye (length vocab) ! i)"
  unfolding one_hot_vectors_def by (simp add: comprehension_nth)

lemma eye_nth: "i < n \<Longrightarrow> eye n ! i = map (\<lambda>j. if i = j then 1 else 0) [0..<n]"
  by (simp add: eye_def)

lemma dot_eye:
  assumes "i < n" "j < n"
  shows "dot (eye n ! i) (eye n ! j) = (if i = j then 1 else 0)"
proof -
  have "dot (eye n ! i) (eye n ! j) =
      sum_list (map (\<lambda>k. (if i = k then 1 else 0) * (if j = k then 1 else 0)) [0..<n])"
    using assms by (simp add: dot_def eye_nth map2_map_map)
  also have "\<dots> = (\<Sum>k = 0..<n. (if i = k \<and> j = k then 1 else 0 :: real))"
    unfolding interv_sum_list_conv_sum_set_nat by (rule sum.cong) auto
  also have "\<dots> = (if i = j then 1 else 0)"
  proof (cases "i = j")
    case True
    then have "(\<Sum>k = 0..<n. (if i = k \<and> j = k then 1 else 0 :: real)) =
        (\<Sum>k = 0..<n. (if i = k then 1 else 0))"
      by simp
    also have "\<dots> = 1" using assms(1) by simp
    finally show ?thesis using True by simp
  next
    case False
    then have "(\<Sum>k = 0..<n. (if i = k \<and> j = k then 1 else 0 :: real)) = (\<Sum>k = 0..<n. 0)"
      by (intro sum.cong) auto
    then show ?thesis using False by simp
  qed
  finally show ?thesis .
qed


text \<open>
  Claim C1. For every corpus, the one-hot table gives the word at index \<open>i\<close> of the
  sorted vocabulary the standard basis vector of length \<open>|vocabulary|\<close> with its \<open>1\<close>
  at position \<open>i\<close>; the vectors of two distinct vocabulary words have dot product
  \<open>0\<close>, and the vector of a vocabulary word has dot product \<open>1\<close> with itself.
\<close>

theorem one_hot_orthonormal:
  "let vocab = vocabulary (tokenized_sentences corpus);
       table = one_hot_vectors vocab
   in (\<forall>i<length vocab.
         table (vocab ! i) = Some (map (\<lambda>j. if i = j then 1 else 0) [0..<length vocab]))
    \<and> (\<forall>w1\<in>set vocab. \<forall>w2\<in>set vocab. w1 \<noteq> w2 \<longrightarrow>
         (\<exists>v1 v2. table w1 = Some v1 \<and> table w2 = Some v2 \<and> dot v1 v2 = 0))
    \<and> (\<forall>w\<in>set vocab. \<exists>v. table w = Some v \<and> dot v v = 1)"
proof -
  define vocab where "vocab = vocabulary (tokenized_sentences corpus)"
  define table where "table = one_hot_vectors vocab"
  have d: "distinct vocab" by (simp add: vocab_def vocabulary_distinct)
  have row: "table (vocab ! i) = Some (eye (length vocab) ! i)" if "i < length vocab" for i
    using d that by (simp add: table_def one_hot_nth)
  have a: "\<forall>i<length vocab.
      table (vocab ! i) = Some (map (\<lambda>j. if i = j then 1 else 0) [0..<length vocab])"
    by (simp add: row eye_nth)
  have b: "\<exists>v1 v2. table w1 = Some v1 \<and> table w2 = Some v2 \<and> dot v1 v2 = 0"
    if "w1 \<in> set vocab" "w2 \<in> set vocab" "w1 \<noteq> w2" for w1 w2
  proof -
    from that(1,2) obtain i j where ij: "i < length vocab" "vocab ! i = w1"
      "j < length vocab" "vocab ! j = w2"
      by (auto simp: in_set_conv_nth)
    with that(3) have "i \<noteq> j" by auto
    with ij have "dot (eye (length vocab) ! i) (eye (length vocab) ! j) = 0"
      by (simp add: dot_eye)
    with row [OF ij(1)] row [OF ij(3)] ij show ?thesis by auto
  qed
  have c: "\<exists>v. table w = Some v \<and> dot v v = 1" if "w \<in> set vocab" for w
  proof -
    from that obtain i where i: "i < length vocab" "vocab ! i = w"
      by (auto simp: in_set_conv_nth)
    then have "dot (eye (length vocab) ! i) (eye (length vocab) ! i) = 1"
      by (simp add: dot_eye)
    with row [OF i(1)] i show ?thesis by auto
  qed
  from a b c show ?thesis
    unfolding Let_def vocab_def [symmetric] table_def [symmetric] by blast
qed

theorem one_hot_orthonormal_witness:
  "let vocab = vocabulary (tokenized_sentences [''b A'', ''a  c'']);
       table = one_hot_vectors vocab
   in vocab = [''a'', ''b'', ''c'']
    \<and> table ''b'' = Some [0, 1, 0]
    \<and> (\<exists>v1 v2. table ''a'' = Some v1 \<and> table ''c'' = Some v2 \<and> dot v1 v2 = 0)
    \<and> (\<exists>v. table ''c'' = Some v \<and> dot v v = 1)"
proof -
  have v: "vocabulary (tokenized_sentences [''b A'', ''a  c'']) = [''a'', ''b'', ''c'']"
    by code_simp
  have u: "[0..<3] = [0, 1, 2]" by code_simp
  show ?thesis
    using one_hot_orthonormal [of "[''b A'', ''a  c'']"]
    unfolding Let_def v by (auto simp: u All_less_Suc numeral_3_eq_3)
qed

section \<open>Properties of running cells\<close>

lemma andthen_cases:
  "andthen c f =
     (case snd c of Inl e \<Rightarrow> (fst c, Inl e) | Inr x \<Rightarrow> (fst c @ fst (f x), snd (f x)))"
  by (simp add: andthen_def split_def split: sum.splits)

section \<open>Properties of the Word2Vec and GloVe tables\<close>

lemma rand_length: "length (fst (rand n g)) = n"
  by (simp add: rand_def)

lemma glove_loop_dom: "dom (fst (glove_loop ws m g)) = dom m \<union> set ws"
  by (induction ws arbitrary: m g) (auto simp: split_def)

lemma glove_loop_length:
  "\<forall>w v. m w = Some v \<longrightarrow> length v = 10 \<Longrightarrow>
   fst (glove_loop ws m g) w = Some v \<Longrightarrow> length v = 10"
proof (induction ws arbitrary: m g)
  case Nil
  then show ?case by simp
next
  case (Cons x xs)
  have step: "glove_loop (x # xs) m g =
      glove_loop xs (m(x \<mapsto> fst (rand 10 g))) (snd (rand 10 g))"
    by (simp add: split_def del: fun_upd_apply)
  have inv: "\<forall>w v. (m(x \<mapsto> fst (rand 10 g))) w = Some v \<longrightarrow> length v = 10"
    using Cons.prems(1) by (auto simp: rand_length)
  from Cons.prems(2) have "fst (glove_loop xs (m(x \<mapsto> fst (rand 10 g))) (snd (rand 10 g))) w = Some v"
    unfolding step .
  with inv show ?case by (rule Cons.IH)
qed

lemma word2vec_loop_ok:
  assumes "\<forall>w\<in>set ws. \<exists>v. wv w = Some v \<and> length v = n"
    and "\<forall>w v. m w = Some v \<longrightarrow> length v = n"
  shows "\<exists>table. word2vec_loop wv ws m = Inr table \<and> dom table = dom m \<union> set ws
           \<and> (\<forall>w v. table w = Some v \<longrightarrow> length v = n)"
  using assms
proof (induction ws arbitrary: m)
  case Nil
  then show ?case by simp
next
  case (Cons x xs)
  from Cons.prems(1) obtain v where v: "wv x = Some v" "length v = n" by auto
  have step: "word2vec_loop wv (x # xs) m = word2vec_loop wv xs (m(x \<mapsto> v))"
    using v(1) by (simp add: getitem_def del: fun_upd_apply)
  have rest: "\<forall>w\<in>set xs. \<exists>v. wv w = Some v \<and> length v = n"
    using Cons.prems(1) by simp
  have inv: "\<forall>w u. (m(x \<mapsto> v)) w = Some u \<longrightarrow> length u = n"
    using Cons.prems(2) v(2) by auto
  from Cons.IH [OF rest inv]
  obtain table where table: "word2vec_loop wv xs (m(x \<mapsto> v)) = Inr table"
    "dom table = dom (m(x \<mapsto> v)) \<union> set xs" "\<forall>w v. table w = Some v \<longrightarrow> length v = n"
    by blast
  from table(2) have "dom table = dom m \<union> set (x # xs)" by auto
  with table(1,3) show ?case unfolding step by blast
qed


lemma word2vec_loop_dom:
  "word2vec_loop wv ws m = Inr table \<Longrightarrow>
   dom table = dom m \<union> set ws \<and> (\<forall>w\<in>set ws. table w = wv w)
     \<and> (\<forall>w. w \<notin> set ws \<longrightarrow> table w = m w)"
proof (induction ws arbitrary: m)
  case Nil
  then show ?case by simp
next
  case (Cons x xs)
  from Cons.prems obtain v where v: "wv x = Some v"
    and rest: "word2vec_loop wv xs (m(x \<mapsto> v)) = Inr table"
    by (auto simp: getitem_def simp del: fun_upd_apply split: option.splits)
  note ih = Cons.IH [OF rest]
  from ih have 1: "dom table = dom m \<union> set (x # xs)" by auto
  from ih v have 2: "\<forall>w\<in>set (x # xs). table w = wv w"
    by (cases "x \<in> set xs") auto
  from ih have 3: "\<forall>w. w \<notin> set (x # xs) \<longrightarrow> table w = m w" by auto
  from 1 2 3 show ?case by (intro conjI)
qed
lemma cell_word2vec_cases:
  "cell_word2vec ext tokenized vocab =
     (case word2vec_table ext tokenized vocab of
        Inl e \<Rightarrow> ([], Inl e)
      | Inr table \<Rightarrow>
          (case table ''learning'' of
             None \<Rightarrow> ([], Inl (KeyError ''learning''))
           | Some v \<Rightarrow> ([Word2VecExample v], Inr ())))"
  by (simp add: cell_word2vec_def andthen_cases call_def print_def getitem_def
      split: sum.splits option.splits)

lemma cell_glove_cases:
  "cell_glove vocab g =
     (case fst (glove_vectors vocab g) ''learning'' of
        None \<Rightarrow> ([], Inl (KeyError ''learning''))
      | Some v \<Rightarrow> ([GloVe v], Inr (snd (glove_vectors vocab g))))"
  by (simp add: cell_glove_def split_def andthen_cases call_def print_def getitem_def
      split: option.splits)

lemma word2vec_table_Inr:
  "word2vec_table ext tokenized vocab = Inr table \<longleftrightarrow>
     (\<exists>wv. Word2Vec ext tokenized 10 2 1 1 1 = Inr wv \<and> word2vec_vectors wv vocab = Inr table)"
  by (simp add: word2vec_table_def split: sum.splits)

lemma contract_on_vocabulary:
  assumes "gensim_contract ext" "Word2Vec ext tokenized 10 2 1 1 1 = Inr wv"
    and "w \<in> set (vocabulary tokenized)"
  shows "\<exists>v. wv w = Some v \<and> length v = 10"
proof -
  from assms(3) have w: "w \<in> set (concat tokenized)" by (simp add: vocabulary_set)
  then have "1 \<le> count_list (concat tokenized) w"
    using count_list_0_iff [of "concat tokenized" w] by linarith
  with assms(1,2) w show ?thesis unfolding gensim_contract_def by blast
qed

text \<open>
  Claim C6. For every corpus, the Word2Vec table and the GloVe placeholder table have
  an entry for every vocabulary word, and every vector in them has length 10. The
  Word2Vec table is what the cell builds from the model that the call with
  \<open>vector_size = 10\<close> and \<open>min_count = 1\<close> on the tokenized corpus returns: its keys
  are exactly the vocabulary, it is returned whenever training returns, and its
  vectors are the model's. The GloVe table holds ten floats of the generator for
  every vocabulary word. Each cell prints the vector its table holds for
  \<open>learning\<close>. The one assumption is \<^const>\<open>gensim_contract\<close>.
\<close>

theorem embedding_tables_complete:
  assumes "gensim_contract ext"
  shows "let tokenized = tokenized_sentences corpus;
             vocab = vocabulary tokenized
         in (\<forall>table. word2vec_table ext tokenized vocab = Inr table \<longrightarrow>
               dom table = set vocab \<and> (\<forall>w v. table w = Some v \<longrightarrow> length v = 10))
          \<and> (\<forall>wv. Word2Vec ext tokenized 10 2 1 1 1 = Inr wv \<longrightarrow>
               (\<exists>table. word2vec_table ext tokenized vocab = Inr table
                  \<and> (\<forall>w\<in>set vocab. table w = wv w)))
          \<and> (\<forall>table v. word2vec_table ext tokenized vocab = Inr table
                \<and> table ''learning'' = Some v \<longrightarrow>
               cell_word2vec ext tokenized vocab = ([Word2VecExample v], Inr ()))
          \<and> (case glove_vectors vocab g of (table, g') \<Rightarrow>
               dom table = set vocab \<and> (\<forall>w v. table w = Some v \<longrightarrow> length v = 10)
               \<and> (\<forall>v. table ''learning'' = Some v \<longrightarrow>
                     cell_glove vocab g = ([GloVe v], Inr g')))"
proof -
  define tokenized where "tokenized = tokenized_sentences corpus"
  define vocab where "vocab = vocabulary tokenized"
  have a: "dom table = set vocab \<and> (\<forall>w v. table w = Some v \<longrightarrow> length v = 10)"
    if t: "word2vec_table ext tokenized vocab = Inr table" for table
  proof -
    from t obtain wv where wv: "Word2Vec ext tokenized 10 2 1 1 1 = Inr wv"
      and tb: "word2vec_vectors wv vocab = Inr table"
      unfolding word2vec_table_Inr by blast
    from tb have d: "dom table = set vocab" and eq: "\<forall>w\<in>set vocab. table w = wv w"
      using word2vec_loop_dom [of wv vocab Map.empty table]
      by (simp_all add: word2vec_vectors_def)
    have "length v = 10" if "table w = Some v" for w v
    proof -
      from that d have w: "w \<in> set vocab" by auto
      with contract_on_vocabulary [OF assms wv, of w] obtain v' where
        "wv w = Some v'" "length v' = 10" unfolding vocab_def by blast
      with eq w that show ?thesis by simp
    qed
    with d show ?thesis by blast
  qed
  have b: "\<exists>table. word2vec_table ext tokenized vocab = Inr table
                  \<and> (\<forall>w\<in>set vocab. table w = wv w)"
    if wv: "Word2Vec ext tokenized 10 2 1 1 1 = Inr wv" for wv
  proof -
    have "\<forall>w\<in>set vocab. \<exists>v. wv w = Some v \<and> length v = 10"
      using contract_on_vocabulary [OF assms wv] unfolding vocab_def by blast
    then obtain table where tb: "word2vec_vectors wv vocab = Inr table"
      using word2vec_loop_ok [of vocab wv 10 Map.empty] by (auto simp: word2vec_vectors_def)
    then have "\<forall>w\<in>set vocab. table w = wv w"
      using word2vec_loop_dom [of wv vocab Map.empty table] by (simp add: word2vec_vectors_def)
    with wv tb show ?thesis by (auto simp: word2vec_table_def)
  qed
  have c: "cell_word2vec ext tokenized vocab = ([Word2VecExample v], Inr ())"
    if "word2vec_table ext tokenized vocab = Inr table \<and> table ''learning'' = Some v"
    for table v
    using that by (simp add: cell_word2vec_cases)
  have d: "dom (fst (glove_vectors vocab g)) = set vocab"
    by (simp add: glove_vectors_def glove_loop_dom)
  have e: "\<forall>w v. fst (glove_vectors vocab g) w = Some v \<longrightarrow> length v = 10"
    unfolding glove_vectors_def using glove_loop_length [of Map.empty] by auto
  have f: "\<forall>v. fst (glove_vectors vocab g) ''learning'' = Some v \<longrightarrow>
      cell_glove vocab g = ([GloVe v], Inr (snd (glove_vectors vocab g)))"
    by (simp add: cell_glove_cases)
  from a b c d e f show ?thesis
    unfolding Let_def tokenized_def [symmetric] vocab_def [symmetric]
    by (simp add: split_def) blast
qed

lemma all_fine_contract: "gensim_contract all_fine"
  by (simp add: gensim_contract_def all_fine_def) auto

theorem embedding_tables_complete_witness:
  "gensim_contract all_fine
   \<and> (\<exists>table. word2vec_table all_fine (tokenized_sentences [''learning b''])
                 (vocabulary (tokenized_sentences [''learning b''])) = Inr table
         \<and> dom table = {''b'', ''learning''}
         \<and> table ''learning'' = Some [0, 0, 0, 0, 0, 0, 0, 0, 0, 0]
         \<and> cell_word2vec all_fine (tokenized_sentences [''learning b''])
              (vocabulary (tokenized_sentences [''learning b''])) =
             ([Word2VecExample [0, 0, 0, 0, 0, 0, 0, 0, 0, 0]], Inr ()))
   \<and> dom (fst (glove_vectors (vocabulary (tokenized_sentences [''learning b''])) counting))
       = {''b'', ''learning''}"
proof -
  note h = embedding_tables_complete [OF all_fine_contract, of "[''learning b'']" counting,
      unfolded Let_def]
  have t: "tokenized_sentences [''learning b''] = [[''learning'', ''b'']]"
    by code_simp
  have v: "vocabulary [[''learning'', ''b'']] = [''b'', ''learning'']"
    by code_simp
  define wv where "wv = (\<lambda>w. if w \<in> set (concat [[''learning'', ''b'']])
      then Some (replicate 10 (0::real)) else None)"
  have tr: "Word2Vec all_fine (tokenized_sentences [''learning b'']) 10 2 1 1 1 = Inr wv"
    by (simp add: all_fine_def wv_def t)
  from h [THEN conjunct2, THEN conjunct1, rule_format, OF tr] obtain table where
    tb: "word2vec_table all_fine (tokenized_sentences [''learning b''])
           (vocabulary (tokenized_sentences [''learning b''])) = Inr table"
    and eq: "\<forall>w\<in>set (vocabulary (tokenized_sentences [''learning b''])). table w = wv w"
    by blast
  from h [THEN conjunct1, rule_format, OF tb]
  have d: "dom table = {''b'', ''learning''}" by (auto simp: t v)
  from eq have l: "table ''learning'' = Some [0, 0, 0, 0, 0, 0, 0, 0, 0, 0]"
    by (simp add: t v wv_def numeral_eq_Suc)
  from tb l have "word2vec_table all_fine (tokenized_sentences [''learning b''])
           (vocabulary (tokenized_sentences [''learning b''])) = Inr table
       \<and> table ''learning'' = Some [0, 0, 0, 0, 0, 0, 0, 0, 0, 0]" by simp
  from h [THEN conjunct2, THEN conjunct2, THEN conjunct1, rule_format, OF this]
  have c: "cell_word2vec all_fine (tokenized_sentences [''learning b''])
              (vocabulary (tokenized_sentences [''learning b''])) =
             ([Word2VecExample [0, 0, 0, 0, 0, 0, 0, 0, 0, 0]], Inr ())" .
  from h [THEN conjunct2, THEN conjunct2, THEN conjunct2]
  have gl: "dom (fst (glove_vectors (vocabulary (tokenized_sentences [''learning b''])) counting))
       = {''b'', ''learning''}"
    by (auto simp: split_def t v)
  from all_fine_contract tb d l c gl show ?thesis by blast
qed

section \<open>Properties of the HNSW example\<close>

lemma length_concat_rows:
  "length (concat (map (\<lambda>i. map (f i) [0..<c]) [0..<r])) = r * c"
  by (simp add: length_concat comp_def sum_list_triv)

lemma generate_cases:
  "generate lib g s d nb nq =
     (if \<not> s < 2 ^ 32 then Inl (Raised ''ValueError'')
      else case allocate lib (nb * d) of Some e \<Rightarrow> Inl e | None \<Rightarrow>
           case allocate lib (nq * d) of Some e \<Rightarrow> Inl e | None \<Rightarrow>
             Inr (map (\<lambda>i. map (\<lambda>j. float32 lib (seed_stream lib s (i * d + j))) [0..<d]) [0..<nb],
                  map (\<lambda>i. map (\<lambda>j. float32 lib (seed_stream lib s (nb * d + i * d + j))) [0..<d])
                    [0..<nq]))"
  by (simp add: generate_def seed_def random_def astype_float32_def length_concat_rows
      split: option.splits)


lemma generate_queries:
  assumes "generate lib g s d nb nq = Inr (database, queries)"
  shows "queries =
     map (\<lambda>i. map (\<lambda>j. float32 lib (seed_stream lib s (nb * d + i * d + j))) [0..<d]) [0..<nq]"
    and "database =
     map (\<lambda>i. map (\<lambda>j. float32 lib (seed_stream lib s (i * d + j))) [0..<d]) [0..<nb]"
  using assms unfolding generate_cases by (auto split: if_splits option.splits)

lemma generate_failure:
  assumes "generate lib g s d nb nq = Inl e"
  shows "(\<not> s < 2 ^ 32 \<and> e = Raised ''ValueError'')
       \<or> allocate lib (nb * d) = Some e \<or> allocate lib (nq * d) = Some e"
  using assms unfolding generate_cases by (auto split: if_splits option.splits)
lemma vector_search_cases:
  fixes lib :: "'i faiss"
  shows "vector_search lib g s d nb nq k =
     (case import_all lib [''numpy'', ''faiss''] of Inl e \<Rightarrow> ([], Inl e) | Inr (u::unit) \<Rightarrow>
      case generate lib g s d nb nq of Inl e \<Rightarrow> ([], Inl e) | Inr (database, queries) \<Rightarrow>
      case IndexHNSWFlat lib d 32 of Inl e \<Rightarrow> ([], Inl e) | Inr idx \<Rightarrow>
      case index_add lib idx database of Inl e \<Rightarrow> ([], Inl e) | Inr idx' \<Rightarrow>
      case index_search lib idx' queries k of Inl e \<Rightarrow> ([], Inl e)
      | Inr (distances, indices) \<Rightarrow> ([Indices indices, Distances distances], Inr ()))"
  by (simp add: vector_search_def split_def andthen_cases call_def print_def split: sum.splits)

lemma queries_of_generate:
  assumes "s < 2 ^ 32" "allocate lib (nb * d) = None" "allocate lib (nq * d) = None"
  shows "queries_of (generate lib g s d nb nq) =
     Inr (map (\<lambda>i. map (\<lambda>j. float32 lib (seed_stream lib s (nb * d + i * d + j))) [0..<d]) [0..<nq])"
  using assms unfolding generate_cases by (simp add: queries_of_def)

lemma flat_faiss_fields:
  "import_module flat_faiss = (\<lambda>m. None)"
  "allocate flat_faiss = (\<lambda>n. None)"
  "float32 flat_faiss = (\<lambda>x. x)"
  "seed_stream flat_faiss = (\<lambda>s i. 1 / real (s + i + 2))"
  "IndexHNSWFlat flat_faiss = (\<lambda>d m. Inr (d, []))"
  by (simp_all add: flat_faiss_def)

lemma flat_faiss_add:
  "index_add flat_faiss idx xs =
     (if list_all (\<lambda>x. length x = fst idx) xs then Inr (fst idx, snd idx @ xs)
      else Inl (Raised ''AssertionError''))"
  by (simp add: flat_faiss_def)

lemma flat_faiss_search:
  "index_search flat_faiss idx qs k =
     (if list_all (\<lambda>q. length q = fst idx) qs \<and> 0 < k
      then Inr (map (\<lambda>q. map fst (flat_search (snd idx) q k)) qs,
                map (\<lambda>q. map snd (flat_search (snd idx) q k)) qs)
      else Inl (Raised ''AssertionError''))"
  by (simp add: flat_faiss_def)

lemma numpy_1234_fields:
  "allocate numpy_1234 = (\<lambda>n. None)"
  "float32 numpy_1234 = (\<lambda>x. real_of_int (round (x * 2 ^ 24)) / 2 ^ 24)"
  "seed_stream numpy_1234 = (\<lambda>s i. if i = 4656 then 5756543613440033 / 2 ^ 53
                               else if i = 6581 then 5756543462972382 / 2 ^ 53 else 0)"
  by (simp_all add: numpy_1234_def flat_faiss_def)

lemma round_4656: "round (5756543613440033 / 536870912 :: real) = 10722398"
  by (rule round_unique) simp_all

lemma round_6581: "round (2878271731486191 / 268435456 :: real) = 10722398"
  by (rule round_unique) simp_all
lemma upt_5: "[0..<5] = [0, 1, 2, 3, 4]"
  by (simp add: upt_rec)

lemma replicate_4: "replicate 4 x = [x, x, x, x]"
  by (simp add: numeral_eq_Suc)

lemma replicate_5: "replicate 5 x = [x, x, x, x, x]"
  by (simp add: numeral_eq_Suc)

lemma flat_search_empty: "flat_search [] q 4 = replicate 4 (flt_max, - 1)"
  by (simp add: flat_search_def)
lemma import_two:
  "import_all py [a, b] = Inl e \<Longrightarrow> import_module py a = Some e \<or> import_module py b = Some e"
  by (auto split: option.splits)
lemma upt_2: "[0..<2] = [0, 1]"
  by (simp add: upt_rec)

lemma flat_generate_small:
  "generate flat_faiss counting 7 2 1 1 = Inr ([[1 / 9, 1 / 10]], [[1 / 11, 1 / 12]])"
  unfolding generate_cases by (simp add: flat_faiss_fields upt_2)
lemma upt_3: "[0..<3] = [0, 1, 2]"
  by (simp add: upt_rec)

lemma flat_generate_nb3:
  "generate flat_faiss counting 7 2 3 1 =
     Inr ([[1 / 9, 1 / 10], [1 / 11, 1 / 12], [1 / 13, 1 / 14]], [[1 / 15, 1 / 16]])"
  unfolding generate_cases by (simp add: flat_faiss_fields upt_2 upt_3)

lemma flat_generate_d3:
  "generate flat_faiss counting 7 3 1 1 =
     Inr ([[1 / 9, 1 / 10, 1 / 11]], [[1 / 12, 1 / 13, 1 / 14]])"
  unfolding generate_cases by (simp add: flat_faiss_fields upt_3)

lemma flat_stream_inj: "inj (\<lambda>i. float32 flat_faiss (seed_stream flat_faiss s i))"
  by (rule injI) (simp add: flat_faiss_fields)

text \<open>
  Claim C7, as stated: the harness fails with \<open>EmptyDatabaseError\<close> when \<open>nb = 0\<close>
  and requires \<open>k \<le> nb\<close>. With the exact search in place of faiss, the run with
  \<open>nb = 0\<close> and \<open>k = 4\<close> ends normally and prints five rows of \<open>-1\<close> and five rows
  of the largest float32.
\<close>

theorem empty_database_no_error:
  "vector_search flat_faiss counting 1234 128 0 5 4 =
     ([Indices (replicate 5 [- 1, - 1, - 1, - 1]),
       Distances (replicate 5 [flt_max, flt_max, flt_max, flt_max])], Inr ())"
  unfolding vector_search_cases generate_cases
  by (simp add: flat_faiss_fields flat_faiss_add flat_faiss_search flat_search_empty
      list_all_iff upt_5 replicate_4 replicate_5)

text \<open>
  Claim C7, amended. The harness does not fail when \<open>nb = 0\<close> and does not require
  \<open>k \<le> nb\<close>: it has no check of \<open>nb\<close> or \<open>k\<close>. The data are drawn whenever the
  seed is below \<open>2 ** 32\<close> and the two allocations succeed, also for \<open>nb = 0\<close>. A
  run fails only with an error raised by one of the two imports, by the seeding, by
  an allocation, or by the index constructor, \<open>add\<close> or \<open>search\<close>, and when none
  of them raises it prints the matrices that \<open>search\<close> returned. Database and query
  vectors all have the one length \<open>d\<close>, so the case of the claim in which they
  differ in dimensionality does not arise in a run.
\<close>

theorem harness_no_own_checks:
  fixes lib :: "'i faiss"
  shows
  "(\<forall>database queries. generate lib g s d nb nq = Inr (database, queries) \<longrightarrow>
       length database = nb \<and> length queries = nq
     \<and> (\<forall>row\<in>set database \<union> set queries. length row = d))
   \<and> (s < 2 ^ 32 \<and> allocate lib (nb * d) = None \<and> allocate lib (nq * d) = None \<longrightarrow>
        (\<exists>database queries. generate lib g s d nb nq = Inr (database, queries)))
   \<and> (\<forall>e. snd (vector_search lib g s d nb nq k) = Inl e \<longrightarrow>
         import_module lib ''numpy'' = Some e
       \<or> import_module lib ''faiss'' = Some e
       \<or> (\<not> s < 2 ^ 32 \<and> e = Raised ''ValueError'')
       \<or> allocate lib (nb * d) = Some e
       \<or> allocate lib (nq * d) = Some e
       \<or> IndexHNSWFlat lib d 32 = Inl e
       \<or> (\<exists>idx database queries. generate lib g s d nb nq = Inr (database, queries)
             \<and> index_add lib idx database = Inl e)
       \<or> (\<exists>idx database queries. generate lib g s d nb nq = Inr (database, queries)
             \<and> index_search lib idx queries k = Inl e))
   \<and> (\<forall>database queries idx idx' distances indices.
         import_all lib [''numpy'', ''faiss''] = Inr ()
       \<and> generate lib g s d nb nq = Inr (database, queries)
       \<and> IndexHNSWFlat lib d 32 = Inr idx
       \<and> index_add lib idx database = Inr idx'
       \<and> index_search lib idx' queries k = Inr (distances, indices)
       \<longrightarrow> vector_search lib g s d nb nq k = ([Indices indices, Distances distances], Inr ()))"
proof (intro conjI allI impI)
  fix database queries
  assume a: "generate lib g s d nb nq = Inr (database, queries)"
  note f = generate_queries [OF a]
  show "length database = nb" by (simp add: f)
  show "length queries = nq" by (simp add: f)
  show "\<forall>row\<in>set database \<union> set queries. length row = d"
    unfolding f by auto
next
  assume "s < 2 ^ 32 \<and> allocate lib (nb * d) = None \<and> allocate lib (nq * d) = None"
  then show "\<exists>database queries. generate lib g s d nb nq = Inr (database, queries)"
    unfolding generate_cases by simp
next
  fix e
  assume e: "snd (vector_search lib g s d nb nq k) = Inl e"
  show "import_module lib ''numpy'' = Some e
       \<or> import_module lib ''faiss'' = Some e
       \<or> (\<not> s < 2 ^ 32 \<and> e = Raised ''ValueError'')
       \<or> allocate lib (nb * d) = Some e
       \<or> allocate lib (nq * d) = Some e
       \<or> IndexHNSWFlat lib d 32 = Inl e
       \<or> (\<exists>idx database queries. generate lib g s d nb nq = Inr (database, queries)
             \<and> index_add lib idx database = Inl e)
       \<or> (\<exists>idx database queries. generate lib g s d nb nq = Inr (database, queries)
             \<and> index_search lib idx queries k = Inl e)"
  proof (cases "import_all lib [''numpy'', ''faiss'']")
    case (Inl e')
    with e have "e' = e" by (simp add: vector_search_cases)
    with Inl import_two [of lib "''numpy''" "''faiss''" e] show ?thesis by blast
  next
    case imp: (Inr u)
    show ?thesis
    proof (cases "generate lib g s d nb nq")
      case (Inl e')
      with e imp have "e' = e" by (simp add: vector_search_cases)
      with Inl generate_failure [of lib g s d nb nq e] show ?thesis by blast
    next
      case (Inr dq)
      then obtain database queries where
        gen: "generate lib g s d nb nq = Inr (database, queries)"
        by (cases dq) simp
      from e imp gen show ?thesis
        by (auto simp: vector_search_cases split: sum.splits)
    qed
  qed
next
  fix database queries idx idx' distances indices
  assume "import_all lib [''numpy'', ''faiss''] = Inr ()
       \<and> generate lib g s d nb nq = Inr (database, queries)
       \<and> IndexHNSWFlat lib d 32 = Inr idx
       \<and> index_add lib idx database = Inr idx'
       \<and> index_search lib idx' queries k = Inr (distances, indices)"
  then show "vector_search lib g s d nb nq k = ([Indices indices, Distances distances], Inr ())"
    by (simp add: vector_search_cases)
qed

theorem harness_no_own_checks_witness:
  "generate flat_faiss counting 7 2 1 1 = Inr ([[1 / 9, 1 / 10]], [[1 / 11, 1 / 12]])
   \<and> length [[1 / 9, 1 / 10 :: real]] = 1
   \<and> import_all flat_faiss [''numpy'', ''faiss''] = Inr ()
   \<and> IndexHNSWFlat flat_faiss 2 32 = Inr (2, [])
   \<and> index_add flat_faiss (2, []) [[1 / 9, 1 / 10]] = Inr (2, [[1 / 9, 1 / 10]])
   \<and> index_search flat_faiss (2, [[1 / 9, 1 / 10]]) [[1 / 11, 1 / 12]] 3
       = Inr ([[l2_sqr [1 / 11, 1 / 12] [1 / 9, 1 / 10], flt_max, flt_max]], [[0, - 1, - 1]])
   \<and> vector_search flat_faiss counting 7 2 1 1 3 =
       ([Indices [[0, - 1, - 1]],
         Distances [[l2_sqr [1 / 11, 1 / 12] [1 / 9, 1 / 10], flt_max, flt_max]]], Inr ())"
proof -
  note h = harness_no_own_checks [of flat_faiss counting 7 2 1 1 3]
  note gen = flat_generate_small
  from h [THEN conjunct1, rule_format, OF gen]
  have len: "length [[1 / 9, 1 / 10 :: real]] = 1" by simp
  have imp: "import_all flat_faiss [''numpy'', ''faiss''] = Inr ()"
    by (simp add: flat_faiss_fields)
  have ctor: "IndexHNSWFlat flat_faiss 2 32 = Inr (2, [])"
    by (simp add: flat_faiss_fields)
  have add: "index_add flat_faiss (2, []) [[1 / 9, 1 / 10]] = Inr (2, [[1 / 9, 1 / 10]])"
    by (simp add: flat_faiss_add)
  have search: "index_search flat_faiss (2, [[1 / 9, 1 / 10]]) [[1 / 11, 1 / 12]] 3
       = Inr ([[l2_sqr [1 / 11, 1 / 12] [1 / 9, 1 / 10], flt_max, flt_max]], [[0, - 1, - 1]])"
    by (simp add: flat_faiss_search flat_search_def numeral_3_eq_3)
  from imp gen ctor add search
  have all: "import_all flat_faiss [''numpy'', ''faiss''] = Inr ()
       \<and> generate flat_faiss counting 7 2 1 1 = Inr ([[1 / 9, 1 / 10]], [[1 / 11, 1 / 12]])
       \<and> IndexHNSWFlat flat_faiss 2 32 = Inr (2, [])
       \<and> index_add flat_faiss (2, []) [[1 / 9, 1 / 10]] = Inr (2, [[1 / 9, 1 / 10]])
       \<and> index_search flat_faiss (2, [[1 / 9, 1 / 10]]) [[1 / 11, 1 / 12]] 3
       = Inr ([[l2_sqr [1 / 11, 1 / 12] [1 / 9, 1 / 10], flt_max, flt_max]], [[0, - 1, - 1]])"
    by (intro conjI)
  from h [THEN conjunct2, THEN conjunct2, THEN conjunct2, rule_format, OF all]
  have run: "vector_search flat_faiss counting 7 2 1 1 3 =
       ([Indices [[0, - 1, - 1]],
         Distances [[l2_sqr [1 / 11, 1 / 12] [1 / 9, 1 / 10], flt_max, flt_max]]], Inr ())" .
  from gen len imp ctor add search run show ?thesis by (intro conjI)
qed

text \<open>
  Claim C10, as stated: two runs with the same seed, \<open>nq\<close> and \<open>d\<close> but different
  \<open>nb\<close> produce different query vectors. With \<open>nq = 0\<close> both runs have no query
  vector. With \<open>nq = 1\<close> and \<open>d = 1\<close>, the runs with \<open>nb = 4656\<close> and
  \<open>nb = 6581\<close> of seed 1234 read two floats of numpy's stream that
  \<open>astype('float32')\<close> rounds to the same value, so both have the one query vector
  \<open>[0.6391047]\<close>.
\<close>

theorem queries_can_coincide:
  "queries_of (generate flat_faiss counting 1234 128 10000 0) = Inr []
   \<and> queries_of (generate flat_faiss counting 1234 128 20000 0) = Inr []
   \<and> queries_of (generate numpy_1234 counting 1234 1 4656 1) = Inr [[10722398 / 2 ^ 24]]
   \<and> queries_of (generate numpy_1234 counting 1234 1 6581 1) = Inr [[10722398 / 2 ^ 24]]"
proof (intro conjI)
  show "queries_of (generate flat_faiss counting 1234 128 10000 0) = Inr []"
    by (subst queries_of_generate) (simp_all add: flat_faiss_fields)
  show "queries_of (generate flat_faiss counting 1234 128 20000 0) = Inr []"
    by (subst queries_of_generate) (simp_all add: flat_faiss_fields)
  show "queries_of (generate numpy_1234 counting 1234 1 4656 1) = Inr [[10722398 / 2 ^ 24]]"
    by (subst queries_of_generate) (simp_all add: numpy_1234_fields round_4656)
  show "queries_of (generate numpy_1234 counting 1234 1 6581 1) = Inr [[10722398 / 2 ^ 24]]"
    by (subst queries_of_generate) (simp_all add: numpy_1234_fields round_6581)
qed

text \<open>
  Claim C10, amended. The database is drawn from the seeded stream before the queries,
  so the queries are the \<open>nq * d\<close> values of the stream of the seed from position
  \<open>nb * d\<close> on, rounded to float32: a function of seed, \<open>nb\<close>, \<open>d\<close> and \<open>nq\<close>
  together. Two runs with the same seed, \<open>nq\<close> and \<open>d\<close> but different \<open>nb\<close>
  produce different query vectors exactly when the rounded stream differs somewhere
  between the two blocks read; this is so for \<open>nq > 0\<close> and \<open>d > 0\<close> whenever the
  rounded stream repeats no value. Two runs that differ in \<open>d\<close> only produce
  different query vectors when \<open>nq > 0\<close>.
\<close>

theorem queries_follow_database:
  "(\<forall>database queries. generate lib g s d nb nq = Inr (database, queries) \<longrightarrow>
      queries = map (\<lambda>i. map (\<lambda>j. float32 lib (seed_stream lib s (nb * d + i * d + j))) [0..<d])
                  [0..<nq])
   \<and> (\<forall>database queries database' queries'.
        generate lib g s d nb nq = Inr (database, queries)
      \<and> generate lib g' s d nb' nq = Inr (database', queries') \<longrightarrow>
        (queries \<noteq> queries' \<longleftrightarrow>
           (\<exists>i<nq. \<exists>j<d. float32 lib (seed_stream lib s (nb * d + i * d + j))
                        \<noteq> float32 lib (seed_stream lib s (nb' * d + i * d + j)))))
   \<and> (\<forall>database queries database' queries'.
        generate lib g s d nb nq = Inr (database, queries)
      \<and> generate lib g' s d' nb nq = Inr (database', queries')
      \<and> 0 < nq \<and> d \<noteq> d' \<longrightarrow> queries \<noteq> queries')
   \<and> (\<forall>database queries database' queries'.
        generate lib g s d nb nq = Inr (database, queries)
      \<and> generate lib g' s d nb' nq = Inr (database', queries')
      \<and> inj (\<lambda>i. float32 lib (seed_stream lib s i))
      \<and> 0 < nq \<and> 0 < d \<and> nb \<noteq> nb' \<longrightarrow> queries \<noteq> queries')"
proof (intro conjI allI impI)
  fix database queries
  assume "generate lib g s d nb nq = Inr (database, queries)"
  then show "queries = map (\<lambda>i. map (\<lambda>j. float32 lib (seed_stream lib s (nb * d + i * d + j))) [0..<d])
                  [0..<nq]"
    by (rule generate_queries)
next
  fix database queries database' queries'
  assume a: "generate lib g s d nb nq = Inr (database, queries)
      \<and> generate lib g' s d nb' nq = Inr (database', queries')"
  then have q: "queries = map (\<lambda>i. map (\<lambda>j. float32 lib (seed_stream lib s (nb * d + i * d + j))) [0..<d])
                  [0..<nq]"
    and q': "queries' = map (\<lambda>i. map (\<lambda>j. float32 lib (seed_stream lib s (nb' * d + i * d + j))) [0..<d])
                  [0..<nq]"
    by (auto dest: generate_queries(1))
  show "queries \<noteq> queries' \<longleftrightarrow>
           (\<exists>i<nq. \<exists>j<d. float32 lib (seed_stream lib s (nb * d + i * d + j))
                        \<noteq> float32 lib (seed_stream lib s (nb' * d + i * d + j)))"
    unfolding q q' by (auto simp: list_eq_iff_nth_eq)
next
  fix database queries database' queries'
  assume a: "generate lib g s d nb nq = Inr (database, queries)
      \<and> generate lib g' s d' nb nq = Inr (database', queries')
      \<and> 0 < nq \<and> d \<noteq> d'"
  then have q: "queries = map (\<lambda>i. map (\<lambda>j. float32 lib (seed_stream lib s (nb * d + i * d + j))) [0..<d])
                  [0..<nq]"
    and q': "queries' = map (\<lambda>i. map (\<lambda>j. float32 lib (seed_stream lib s (nb * d' + i * d' + j))) [0..<d'])
                  [0..<nq]"
    by (auto dest: generate_queries(1))
  show "queries \<noteq> queries'"
  proof
    assume "queries = queries'"
    then have "length (queries ! 0) = length (queries' ! 0)" by simp
    with a show False by (simp add: q q')
  qed
next
  fix database queries database' queries'
  assume a: "generate lib g s d nb nq = Inr (database, queries)
      \<and> generate lib g' s d nb' nq = Inr (database', queries')
      \<and> inj (\<lambda>i. float32 lib (seed_stream lib s i))
      \<and> 0 < nq \<and> 0 < d \<and> nb \<noteq> nb'"
  then have q: "queries = map (\<lambda>i. map (\<lambda>j. float32 lib (seed_stream lib s (nb * d + i * d + j))) [0..<d])
                  [0..<nq]"
    and q': "queries' = map (\<lambda>i. map (\<lambda>j. float32 lib (seed_stream lib s (nb' * d + i * d + j))) [0..<d])
                  [0..<nq]"
    by (auto dest: generate_queries(1))
  from a have "nb * d \<noteq> nb' * d" by simp
  with a have "float32 lib (seed_stream lib s (nb * d)) \<noteq> float32 lib (seed_stream lib s (nb' * d))"
    by (auto dest: injD)
  then have "queries ! 0 ! 0 \<noteq> queries' ! 0 ! 0"
    using a by (simp add: q q')
  then show "queries \<noteq> queries'" by auto
qed

theorem queries_follow_database_witness:
  "generate flat_faiss counting 7 2 1 1 = Inr ([[1 / 9, 1 / 10]], [[1 / 11, 1 / 12]])
   \<and> generate flat_faiss counting 7 2 3 1 =
       Inr ([[1 / 9, 1 / 10], [1 / 11, 1 / 12], [1 / 13, 1 / 14]], [[1 / 15, 1 / 16]])
   \<and> generate flat_faiss counting 7 3 1 1 =
       Inr ([[1 / 9, 1 / 10, 1 / 11]], [[1 / 12, 1 / 13, 1 / 14]])
   \<and> inj (\<lambda>i. float32 flat_faiss (seed_stream flat_faiss 7 i))
   \<and> [[1 / 11, 1 / 12 :: real]] =
       map (\<lambda>i. map (\<lambda>j. float32 flat_faiss (seed_stream flat_faiss 7 (1 * 2 + i * 2 + j))) [0..<2])
         [0..<1]
   \<and> [[1 / 11, 1 / 12 :: real]] \<noteq> [[1 / 15, 1 / 16]]
   \<and> [[1 / 11, 1 / 12 :: real]] \<noteq> [[1 / 12, 1 / 13, 1 / 14]]"
proof -
  note h = queries_follow_database [of flat_faiss counting 7 2 1 1 counting 3 3]
  note g1 = flat_generate_small and g2 = flat_generate_nb3 and g3 = flat_generate_d3
  note inj = flat_stream_inj [of 7]
  from h [THEN conjunct1, rule_format, OF g1]
  have 1: "[[1 / 11, 1 / 12 :: real]] =
       map (\<lambda>i. map (\<lambda>j. float32 flat_faiss (seed_stream flat_faiss 7 (1 * 2 + i * 2 + j))) [0..<2])
         [0..<1]" .
  have c4: "generate flat_faiss counting 7 2 1 1 = Inr ([[1 / 9, 1 / 10]], [[1 / 11, 1 / 12]])
      \<and> generate flat_faiss counting 7 2 3 1 =
          Inr ([[1 / 9, 1 / 10], [1 / 11, 1 / 12], [1 / 13, 1 / 14]], [[1 / 15, 1 / 16]])
      \<and> inj (\<lambda>i. float32 flat_faiss (seed_stream flat_faiss 7 i))
      \<and> (0::nat) < 1 \<and> (0::nat) < 2 \<and> (1::nat) \<noteq> 3"
    using g1 g2 inj by simp
  from h [THEN conjunct2, THEN conjunct2, THEN conjunct2, rule_format, OF c4]
  have 2: "[[1 / 11, 1 / 12 :: real]] \<noteq> [[1 / 15, 1 / 16]]" .
  have c3: "generate flat_faiss counting 7 2 1 1 = Inr ([[1 / 9, 1 / 10]], [[1 / 11, 1 / 12]])
      \<and> generate flat_faiss counting 7 3 1 1 =
          Inr ([[1 / 9, 1 / 10, 1 / 11]], [[1 / 12, 1 / 13, 1 / 14]])
      \<and> (0::nat) < 1 \<and> (2::nat) \<noteq> 3"
    using g1 g3 by simp
  from h [THEN conjunct2, THEN conjunct2, THEN conjunct1, rule_format, OF c3]
  have 3: "[[1 / 11, 1 / 12 :: real]] \<noteq> [[1 / 12, 1 / 13, 1 / 14]]" .
  from g1 g2 g3 inj 1 2 3 show ?thesis by (intro conjI)
qed



section \<open>Properties of a run of notebook 1\<close>

lemma cell_setup_cases:
  "cell_setup ext corpus =
     (case import_all ext [''numpy'', ''matplotlib.pyplot'', ''sklearn.decomposition'',
                           ''sklearn.manifold'', ''gensim.models'', ''transformers''] of
        Inl e \<Rightarrow> ([], Inl e)
      | Inr u \<Rightarrow> ([], Inr (tokenized_sentences corpus)))"
  by (simp add: cell_setup_def andthen_cases call_def split: sum.splits)

lemma cell_one_hot_cases:
  "cell_one_hot tokenized =
     (case one_hot_vectors (vocabulary tokenized) ''learning'' of
        None \<Rightarrow> ([Vocabulary (vocabulary tokenized)], Inl (KeyError ''learning''))
      | Some v \<Rightarrow> ([Vocabulary (vocabulary tokenized), OneHot v], Inr (vocabulary tokenized)))"
  by (simp add: cell_one_hot_def Let_def andthen_cases call_def print_def getitem_def
      split: option.splits)

lemma cell_bert_rows:
  "(\<forall>e. snd (cell_bert ext) = Inl e \<longrightarrow> fst (cell_bert ext) = [])
   \<and> (snd (cell_bert ext) = Inr () \<longrightarrow> (\<exists>shape. fst (cell_bert ext) = [BertShape shape]))"
  by (auto simp: cell_bert_def andthen_cases call_def print_def split: sum.splits)

lemma cell_openai_rows:
  "(\<forall>e. snd (cell_openai ext) = Inl e \<longrightarrow> fst (cell_openai ext) = [])
   \<and> (snd (cell_openai ext) = Inr () \<longrightarrow> (\<exists>v. fst (cell_openai ext) = [OpenAI v]))"
  by (auto simp: cell_openai_def andthen_cases call_def print_def split: sum.splits)

lemma cell_word2vec_rows:
  "(\<forall>e. snd (cell_word2vec ext tok vocab) = Inl e \<longrightarrow> fst (cell_word2vec ext tok vocab) = [])
   \<and> (snd (cell_word2vec ext tok vocab) = Inr () \<longrightarrow>
        (\<exists>v. fst (cell_word2vec ext tok vocab) = [Word2VecExample v]))"
  by (auto simp: cell_word2vec_cases split: sum.splits option.splits)

lemma cell_glove_rows:
  "(\<forall>e. snd (cell_glove vocab g) = Inl e \<longrightarrow> fst (cell_glove vocab g) = [])
   \<and> (\<forall>g'. snd (cell_glove vocab g) = Inr g' \<longrightarrow> (\<exists>v. fst (cell_glove vocab g) = [GloVe v]))"
  by (auto simp: cell_glove_cases split: option.splits)

lemma cell_dotenv_out: "fst (cell_dotenv ext) = []"
  by (simp add: cell_dotenv_def call_def)

lemma status_andthen:
  assumes "\<And>x. snd c = Inr x \<Longrightarrow> status (f x) = first_failure rest"
  shows "status (andthen c f) = first_failure (status c # rest)"
proof (cases "snd c")
  case (Inl e)
  then show ?thesis by (simp add: andthen_cases status_def)
next
  case (Inr x)
  have "first_failure rest = status (f x)" using assms [OF Inr] by simp
  then show ?thesis using Inr by (simp add: andthen_cases status_def split_def)
qed

lemma first_failure_single: "first_failure [status c] = status c"
  by (cases "snd c") (simp_all add: status_def)

lemma cell_setup_value:
  "snd (cell_setup ext corpus) = Inr tok \<Longrightarrow> tok = tokenized_sentences corpus"
  by (auto simp: cell_setup_cases split: sum.splits)

lemma cell_one_hot_value: "snd (cell_one_hot tok) = Inr vocab \<Longrightarrow> vocab = vocabulary tok"
  by (auto simp: cell_one_hot_cases split: option.splits)

lemma status_run_all:
  "status (run_all ext g corpus) =
     first_failure
       [status (cell_setup ext corpus),
        status (cell_one_hot (tokenized_sentences corpus)),
        status (cell_word2vec ext (tokenized_sentences corpus)
                  (vocabulary (tokenized_sentences corpus))),
        status (cell_glove (vocabulary (tokenized_sentences corpus)) g),
        status (cell_bert ext),
        status (cell_dotenv ext),
        status (cell_openai ext)]"
  unfolding run_all_def
proof (rule status_andthen)
  fix tok
  assume "snd (cell_setup ext corpus) = Inr tok"
  then have tok: "tok = tokenized_sentences corpus" by (rule cell_setup_value)
  show "status (andthen (cell_one_hot tok)
          (\<lambda>vocab. andthen (cell_word2vec ext tok vocab)
          (\<lambda>_. andthen (cell_glove vocab g)
          (\<lambda>_. andthen (cell_bert ext)
          (\<lambda>_. andthen (cell_dotenv ext)
          (\<lambda>_. cell_openai ext)))))) =
        first_failure
          [status (cell_one_hot (tokenized_sentences corpus)),
           status (cell_word2vec ext (tokenized_sentences corpus)
                     (vocabulary (tokenized_sentences corpus))),
           status (cell_glove (vocabulary (tokenized_sentences corpus)) g),
           status (cell_bert ext),
           status (cell_dotenv ext),
           status (cell_openai ext)]"
    unfolding tok
  proof (rule status_andthen)
    fix vocab
    assume "snd (cell_one_hot (tokenized_sentences corpus)) = Inr vocab"
    then have vocab: "vocab = vocabulary (tokenized_sentences corpus)"
      by (rule cell_one_hot_value)
    show "status (andthen (cell_word2vec ext (tokenized_sentences corpus) vocab)
            (\<lambda>_. andthen (cell_glove vocab g)
            (\<lambda>_. andthen (cell_bert ext)
            (\<lambda>_. andthen (cell_dotenv ext)
            (\<lambda>_. cell_openai ext))))) =
          first_failure
            [status (cell_word2vec ext (tokenized_sentences corpus)
                       (vocabulary (tokenized_sentences corpus))),
             status (cell_glove (vocabulary (tokenized_sentences corpus)) g),
             status (cell_bert ext),
             status (cell_dotenv ext),
             status (cell_openai ext)]"
      unfolding vocab
      by (intro status_andthen) (rule first_failure_single [symmetric])
  qed
qed

text \<open>
  Claim C8, as stated: a failure of one embedding method never prevents the results of
  the others from being computed and reported. With a BERT pipeline that cannot be
  loaded the run ends at the BERT cell with the library's error, and the OpenAI row is
  not reported although the OpenAI cell on its own returns its row.
\<close>

theorem bert_failure_ends_run:
  "run_all bert_unavailable counting [''Deep learning''] =
     ([Vocabulary [''deep'', ''learning''], OneHot [0, 1],
       Word2VecExample [0, 0, 0, 0, 0, 0, 0, 0, 0, 0],
       GloVe [10, 11, 12, 13, 14, 15, 16, 17, 18, 19]], Inl (Raised ''OSError''))
   \<and> cell_openai bert_unavailable = ([OpenAI [1, 2, 3]], Inr ())"
  by code_simp

text \<open>
  Claim C8, amended. A failure of an embedding method ends the run at that cell with
  the error the library raised: the report is what the cells printed up to and with
  the first failing cell, in order, and no later cell runs. A cell of Word2Vec,
  GloVe, BERT or OpenAI that fails prints nothing, and one that returns prints the one
  row of its method, so the report holds the rows of the methods before the failure,
  no row of the failed method or of a later one, and nothing that marks the failure.
  The one-hot cell prints the vocabulary and then the one-hot row if \<open>learning\<close> is
  in the vocabulary. The credentials are handed to the client constructor as
  \<open>os.getenv\<close> gives them; if the constructor raises, that error ends the cell.
\<close>

theorem run_stops_at_first_failure:
  "let tok = tokenized_sentences corpus;
       vocab = vocabulary tok
   in status (run_all ext g corpus) =
        first_failure
          [status (cell_setup ext corpus),
           status (cell_one_hot tok),
           status (cell_word2vec ext tok vocab),
           status (cell_glove vocab g),
           status (cell_bert ext),
           status (cell_dotenv ext),
           status (cell_openai ext)]
    \<and> fst (cell_setup ext corpus) = []
    \<and> fst (cell_one_hot tok) =
        Vocabulary vocab # (case one_hot_vectors vocab ''learning'' of
                              None \<Rightarrow> [] | Some v \<Rightarrow> [OneHot v])
    \<and> (\<forall>e. snd (cell_word2vec ext tok vocab) = Inl e \<longrightarrow> fst (cell_word2vec ext tok vocab) = [])
    \<and> (snd (cell_word2vec ext tok vocab) = Inr () \<longrightarrow>
         (\<exists>v. fst (cell_word2vec ext tok vocab) = [Word2VecExample v]))
    \<and> (\<forall>e. snd (cell_glove vocab g) = Inl e \<longrightarrow> fst (cell_glove vocab g) = [])
    \<and> (\<forall>g'. snd (cell_glove vocab g) = Inr g' \<longrightarrow> (\<exists>v. fst (cell_glove vocab g) = [GloVe v]))
    \<and> (\<forall>e. snd (cell_bert ext) = Inl e \<longrightarrow> fst (cell_bert ext) = [])
    \<and> (snd (cell_bert ext) = Inr () \<longrightarrow> (\<exists>shape. fst (cell_bert ext) = [BertShape shape]))
    \<and> fst (cell_dotenv ext) = []
    \<and> (\<forall>e. snd (cell_openai ext) = Inl e \<longrightarrow> fst (cell_openai ext) = [])
    \<and> (snd (cell_openai ext) = Inr () \<longrightarrow> (\<exists>v. fst (cell_openai ext) = [OpenAI v]))
    \<and> (\<forall>e. import_all ext [''os'', ''openai''] = Inr ()
          \<and> AzureOpenAI ext (getenv ext ''AZURE_OPENAI_API_KEY'') ''2024-02-01''
               (getenv ext ''AZURE_OPENAI_ENDPOINT'') = Inl e
          \<longrightarrow> cell_openai ext = ([], Inl e))"
proof -
  have cred: "\<forall>e. import_all ext [''os'', ''openai''] = Inr ()
          \<and> AzureOpenAI ext (getenv ext ''AZURE_OPENAI_API_KEY'') ''2024-02-01''
               (getenv ext ''AZURE_OPENAI_ENDPOINT'') = Inl e
          \<longrightarrow> cell_openai ext = ([], Inl e)"
    by (simp add: cell_openai_def andthen_cases call_def)
  have oh: "fst (cell_one_hot (tokenized_sentences corpus)) =
        Vocabulary (vocabulary (tokenized_sentences corpus))
        # (case one_hot_vectors (vocabulary (tokenized_sentences corpus)) ''learning'' of
             None \<Rightarrow> [] | Some v \<Rightarrow> [OneHot v])"
    by (simp add: cell_one_hot_cases split: option.splits)
  have su: "fst (cell_setup ext corpus) = []"
    by (simp add: cell_setup_cases split: sum.splits)
  note w = cell_word2vec_rows [of ext "tokenized_sentences corpus"
      "vocabulary (tokenized_sentences corpus)"]
  note gl = cell_glove_rows [of "vocabulary (tokenized_sentences corpus)" g]
  note b = cell_bert_rows [of ext]
  note o = cell_openai_rows [of ext]
  show ?thesis
    unfolding Let_def
    apply (intro conjI)
                apply (rule status_run_all)
               apply (rule su)
              apply (rule oh)
             apply (rule w [THEN conjunct1])
            apply (rule w [THEN conjunct2])
           apply (rule gl [THEN conjunct1])
          apply (rule gl [THEN conjunct2])
         apply (rule b [THEN conjunct1])
        apply (rule b [THEN conjunct2])
       apply (rule cell_dotenv_out)
      apply (rule o [THEN conjunct1])
     apply (rule o [THEN conjunct2])
    apply (rule cred)
    done
qed

theorem run_stops_at_first_failure_witness:
  "status (run_all bert_unavailable counting [''Deep learning'']) =
     ([Vocabulary [''deep'', ''learning''], OneHot [0, 1],
       Word2VecExample [0, 0, 0, 0, 0, 0, 0, 0, 0, 0],
       GloVe [10, 11, 12, 13, 14, 15, 16, 17, 18, 19]], Some (Raised ''OSError''))
   \<and> snd (cell_bert bert_unavailable) = Inl (Raised ''OSError'')
   \<and> fst (cell_bert bert_unavailable) = []
   \<and> status (run_all word2vec_fails counting [''Deep learning'']) =
       ([Vocabulary [''deep'', ''learning''], OneHot [0, 1]], Some (Raised ''RuntimeError''))
   \<and> getenv missing_credentials ''AZURE_OPENAI_API_KEY'' = None
   \<and> cell_openai missing_credentials = ([], Inl (Raised ''OpenAIError''))"
proof -
  have t: "tokenized_sentences [''Deep learning''] = [[''deep'', ''learning'']]"
    by code_simp
  have v: "vocabulary [[''deep'', ''learning'']] = [''deep'', ''learning'']"
    by code_simp
  note h = run_stops_at_first_failure [of "[''Deep learning'']" bert_unavailable counting,
      unfolded Let_def t v]
  note h2 = run_stops_at_first_failure [of "[''Deep learning'']" word2vec_fails counting,
      unfolded Let_def t v]
  note h3 = run_stops_at_first_failure [of "[''Deep learning'']" missing_credentials counting,
      unfolded Let_def t v]
  have s1: "status (cell_setup bert_unavailable [''Deep learning'']) = ([], None)"
    by code_simp
  have s2: "status (cell_one_hot [[''deep'', ''learning'']]) =
      ([Vocabulary [''deep'', ''learning''], OneHot [0, 1]], None)"
    by code_simp
  have s3: "status (cell_word2vec bert_unavailable [[''deep'', ''learning'']] [''deep'', ''learning''])
      = ([Word2VecExample [0, 0, 0, 0, 0, 0, 0, 0, 0, 0]], None)"
    by code_simp
  have s4: "status (cell_glove [''deep'', ''learning''] counting) =
      ([GloVe [10, 11, 12, 13, 14, 15, 16, 17, 18, 19]], None)"
    by code_simp
  have b: "snd (cell_bert bert_unavailable) = Inl (Raised ''OSError'')"
    by code_simp
  from h [THEN conjunct2, THEN conjunct2, THEN conjunct2, THEN conjunct2, THEN conjunct2,
      THEN conjunct2, THEN conjunct2, THEN conjunct1, rule_format, OF b]
  have b': "fst (cell_bert bert_unavailable) = []" .
  from b b' have s5: "status (cell_bert bert_unavailable) = ([], Some (Raised ''OSError''))"
    by (simp add: status_def)
  from h [THEN conjunct1]
  have r: "status (run_all bert_unavailable counting [''Deep learning'']) =
     ([Vocabulary [''deep'', ''learning''], OneHot [0, 1],
       Word2VecExample [0, 0, 0, 0, 0, 0, 0, 0, 0, 0],
       GloVe [10, 11, 12, 13, 14, 15, 16, 17, 18, 19]], Some (Raised ''OSError''))"
    by (simp add: s1 s2 s3 s4 s5)
  have w1: "status (cell_setup word2vec_fails [''Deep learning'']) = ([], None)"
    by code_simp
  have w: "snd (cell_word2vec word2vec_fails [[''deep'', ''learning'']] [''deep'', ''learning''])
      = Inl (Raised ''RuntimeError'')"
    by code_simp
  from h2 [THEN conjunct2, THEN conjunct2, THEN conjunct2, THEN conjunct1, rule_format, OF w]
  have w': "fst (cell_word2vec word2vec_fails [[''deep'', ''learning'']] [''deep'', ''learning'']) = []" .
  from w w' have w3: "status (cell_word2vec word2vec_fails [[''deep'', ''learning'']]
      [''deep'', ''learning'']) = ([], Some (Raised ''RuntimeError''))"
    by (simp add: status_def)
  from h2 [THEN conjunct1]
  have r2: "status (run_all word2vec_fails counting [''Deep learning'']) =
       ([Vocabulary [''deep'', ''learning''], OneHot [0, 1]], Some (Raised ''RuntimeError''))"
    by (simp add: w1 s2 w3)
  have c: "import_all missing_credentials [''os'', ''openai''] = Inr ()
       \<and> AzureOpenAI missing_credentials (getenv missing_credentials ''AZURE_OPENAI_API_KEY'')
            ''2024-02-01'' (getenv missing_credentials ''AZURE_OPENAI_ENDPOINT'')
          = Inl (Raised ''OpenAIError'')"
    by (simp add: missing_credentials_def all_fine_def)
  from h3 [THEN conjunct2, THEN conjunct2, THEN conjunct2, THEN conjunct2, THEN conjunct2,
      THEN conjunct2, THEN conjunct2, THEN conjunct2, THEN conjunct2, THEN conjunct2,
      THEN conjunct2, THEN conjunct2, rule_format, OF c]
  have c': "cell_openai missing_credentials = ([], Inl (Raised ''OpenAIError''))" .
  have d: "getenv missing_credentials ''AZURE_OPENAI_API_KEY'' = None"
    by (simp add: missing_credentials_def)
  from r b b' r2 d c' show ?thesis by (intro conjI)
qed

section \<open>The end-to-end scenario of the two-sentence corpus\<close>

lemma scenario_tokens:
  "tokenized_sentences scenario_corpus =
     [[''i'', ''love'', ''natural'', ''language'', ''processing''],
      [''deep'', ''learning'', ''is'', ''a'', ''key'', ''technology'', ''for'', ''ai'']]"
  by code_simp

lemma scenario_vocabulary:
  "vocabulary (tokenized_sentences scenario_corpus) =
     [''a'', ''ai'', ''deep'', ''for'', ''i'', ''is'', ''key'', ''language'', ''learning'',
      ''love'', ''natural'', ''processing'', ''technology'']"
  unfolding scenario_tokens by code_simp

lemma scenario_one_hot:
  "one_hot_vectors [''a'', ''ai'', ''deep'', ''for'', ''i'', ''is'', ''key'', ''language'',
      ''learning'', ''love'', ''natural'', ''processing'', ''technology''] ''learning'' =
     Some [0, 0, 0, 0, 0, 0, 0, 0, 1, 0, 0, 0, 0]"
  by code_simp


text \<open>
  Claim C3, as stated: the vocabulary of the two-sentence corpus has exactly 12 words.
  It has 13: the five words of the first sentence and the eight of the second are
  pairwise different.
\<close>

theorem scenario_vocabulary_not_12:
  "length (vocabulary (tokenized_sentences scenario_corpus)) \<noteq> 12"
  by (simp add: scenario_vocabulary)


text \<open>
  Claim C3, amended. For the two-sentence corpus the vocabulary is the 13 distinct
  lowercase words in ascending order, beginning with \<open>a\<close> and \<open>ai\<close> (from \<open>AI\<close>), and
  the one-hot vector of \<open>learning\<close> has length 13 with its single \<open>1\<close> at index 8,
  the position of \<open>learning\<close> in the vocabulary.
\<close>

theorem scenario_vocabulary_13:
  "vocabulary (tokenized_sentences scenario_corpus) =
     [''a'', ''ai'', ''deep'', ''for'', ''i'', ''is'', ''key'', ''language'', ''learning'',
      ''love'', ''natural'', ''processing'', ''technology'']
   \<and> length (vocabulary (tokenized_sentences scenario_corpus)) = 13
   \<and> vocabulary (tokenized_sentences scenario_corpus) ! 8 = ''learning''
   \<and> one_hot_vectors (vocabulary (tokenized_sentences scenario_corpus)) ''learning'' =
       Some [0, 0, 0, 0, 0, 0, 0, 0, 1, 0, 0, 0, 0]"
  by (simp add: scenario_vocabulary scenario_one_hot)

end
